theory Spec2Isabelle
  imports Complex_Main
begin

section \<open>Traversal primitives (src/src/image/iterator.js)\<close>

text \<open>
  Offsets, bounds and strides are JavaScript numbers that index a flat buffer; they are
  modelled as integers (double arithmetic is exact on them below \<open>2^53\<close>). Only
  \<open>range3d\<close> divides, so its second and third cursor are rationals.

  Each factory returns a closure over private cursor variables. The model of a factory
  builds the record of those variables, and the model of the closure's \<open>next\<close> method
  (a pull) takes the data accessor and the record and returns three things: the result
  object, the offsets that were passed to the accessor during this pull (in call order),
  and the updated record.
\<close>

datatype error =
    TypeError
  | RangeError
  | UnknownDirection nat
  | UnsupportedNumberOfComponents
  | UnsupportedNumberOfComponentsForRegion
  | CannotGetNonConstantRSI
  | CannotStoreNonConstantRSI
  | CannotReallocate
  | CannotAppendNullSlice
  | CannotAppendMoreThanOneSlice
  | DifferentNumberOfColumns
  | DifferentNumberOfRows
  | DifferentOrientation
  | DifferentPhotometricInterpretation
  | DifferentMeta string
  | MissingNumberOfFiles

text \<open>
  The result object of a pull: \<open>{value: v, done: false}\<close> is \<open>Value v\<close>,
  \<open>{done: true, index: i}\<close> is \<open>Done i\<close>, and \<open>Throws e\<close> is a pull that raises.
\<close>

datatype ('v, 'i) pulled = Value 'v | Done 'i | Throws error

fun is_done :: "('v, 'i) pulled \<Rightarrow> bool" where
  "is_done (Done i) = True"
| "is_done (Value v) = False"
| "is_done (Throws e) = False"

fun emitted :: "('v, 'i) pulled \<Rightarrow> 'v option" where
  "emitted (Value v) = Some v"
| "emitted (Done i) = None"
| "emitted (Throws e) = None"

subsection \<open>simpleRange\<close>

record simpleRange_state =
  sr_nextIndex :: int
  sr_end :: int
  sr_increment :: int

definition simpleRange :: "int \<Rightarrow> int \<Rightarrow> int option \<Rightarrow> simpleRange_state" where
  "simpleRange start end increment =
     \<lparr> sr_nextIndex = start,
       sr_end = end,
       sr_increment = (case increment of None \<Rightarrow> 1 | Some i \<Rightarrow> i) \<rparr>"

definition simpleRange_next ::
  "(int \<Rightarrow> 'v) \<Rightarrow> simpleRange_state \<Rightarrow> ('v, int) pulled \<times> int list \<times> simpleRange_state" where
  "simpleRange_next dataAccessor s =
     (if sr_nextIndex s < sr_end s
      then (Value (dataAccessor (sr_nextIndex s)),
            [sr_nextIndex s],
            s\<lparr> sr_nextIndex := sr_nextIndex s + sr_increment s \<rparr>)
      else (Done (sr_end s), [], s))"

subsection \<open>range (the counted range)\<close>

record range_state =
  rg_nextIndex :: int
  rg_start :: int
  rg_end :: int
  rg_increment :: int
  rg_countMax :: int
  rg_finalCountIncrement :: int
  rg_reverse1 :: bool
  rg_count :: int

text \<open>
  The factory adapts the first index and the two increments to the reversal flags
  (an omitted flag is \<open>false\<close>), then fixes \<open>finalCountIncrement\<close>.
\<close>

definition range_it ::
  "int \<Rightarrow> int \<Rightarrow> int \<Rightarrow> int \<Rightarrow> int \<Rightarrow> bool option \<Rightarrow> bool option \<Rightarrow> range_state" where
  "range_it start end increment countMax countIncrement reverse1 reverse2 =
     (let r1 = (case reverse1 of None \<Rightarrow> False | Some b \<Rightarrow> b);
          r2 = (case reverse2 of None \<Rightarrow> False | Some b \<Rightarrow> b);
          nextIndex =
            (if r1 then (if r2 then end - (countMax - 1) * increment else end)
             else (if r2 then start + (countMax - 1) * increment else start));
          countIncrement' = (if r1 then countIncrement * (- 1) else countIncrement);
          increment' =
            (if r1 then (if r2 then increment else increment * (- 1))
             else (if r2 then increment * (- 1) else increment))
      in \<lparr> rg_nextIndex = nextIndex,
           rg_start = start,
           rg_end = end,
           rg_increment = increment',
           rg_countMax = countMax,
           rg_finalCountIncrement = countIncrement' - countMax * increment',
           rg_reverse1 = r1,
           rg_count = 0 \<rparr>)"

definition testIndex :: "range_state \<Rightarrow> int \<Rightarrow> bool" where
  "testIndex s i = (if rg_reverse1 s then i \<ge> rg_start s else i \<le> rg_end s)"

definition range_next ::
  "(int \<Rightarrow> 'v) \<Rightarrow> range_state \<Rightarrow> ('v, int) pulled \<times> int list \<times> range_state" where
  "range_next dataAccessor s =
     (if testIndex s (rg_nextIndex s)
      then (let nextIndex = rg_nextIndex s + rg_increment s;
                count = rg_count s + 1
            in (Value (dataAccessor (rg_nextIndex s)),
                [rg_nextIndex s],
                (if count = rg_countMax s
                 then s\<lparr> rg_nextIndex := nextIndex + rg_finalCountIncrement s, rg_count := 0 \<rparr>
                 else s\<lparr> rg_nextIndex := nextIndex, rg_count := count \<rparr>)))
      else (Done (rg_end s), [], s))"

subsection \<open>rangeRegion\<close>

record rangeRegion_state =
  rr_nextIndex :: int
  rr_end :: int
  rr_increment :: int
  rr_regionSize :: int
  rr_regionOffset :: int
  rr_regionElementCount :: int

definition rangeRegion :: "int \<Rightarrow> int \<Rightarrow> int \<Rightarrow> int \<Rightarrow> int \<Rightarrow> rangeRegion_state" where
  "rangeRegion start end increment regionSize regionOffset =
     \<lparr> rr_nextIndex = start,
       rr_end = end,
       rr_increment = increment,
       rr_regionSize = regionSize,
       rr_regionOffset = regionOffset,
       rr_regionElementCount = 0 \<rparr>"

definition rangeRegion_next ::
  "(int \<Rightarrow> 'v) \<Rightarrow> rangeRegion_state \<Rightarrow> ('v, int) pulled \<times> int list \<times> rangeRegion_state" where
  "rangeRegion_next dataAccessor s =
     (if rr_nextIndex s < rr_end s
      then (let regionElementCount = rr_regionElementCount s + 1;
                nextIndex = rr_nextIndex s + rr_increment s
            in (Value (dataAccessor (rr_nextIndex s)),
                [rr_nextIndex s],
                (if regionElementCount = rr_regionSize s
                 then s\<lparr> rr_nextIndex := nextIndex + rr_regionOffset s,
                         rr_regionElementCount := 0 \<rparr>
                 else s\<lparr> rr_nextIndex := nextIndex,
                         rr_regionElementCount := regionElementCount \<rparr>)))
      else (Done (rr_end s), [], s))"

subsection \<open>rangeRegions\<close>

text \<open>
  A region is the array \<open>[off0, size, off1]\<close>. Reading \<open>regions[regionCount][1]\<close> past
  the last region dereferences \<open>undefined\<close>: the pull raises a TypeError after it has
  called the accessor and advanced the cursor.
\<close>

record rangeRegions_state =
  rs_nextIndex :: int
  rs_end :: int
  rs_increment :: int
  rs_regions :: "(int \<times> int \<times> int) list"
  rs_regionCount :: nat
  rs_regionElementCount :: int

definition rangeRegions ::
  "int \<Rightarrow> int \<Rightarrow> int \<Rightarrow> (int \<times> int \<times> int) list \<Rightarrow> rangeRegions_state" where
  "rangeRegions start end increment regions =
     \<lparr> rs_nextIndex = start,
       rs_end = end,
       rs_increment = increment,
       rs_regions = regions,
       rs_regionCount = 0,
       rs_regionElementCount = 0 \<rparr>"

definition rangeRegions_next ::
  "(int \<Rightarrow> 'v) \<Rightarrow> rangeRegions_state \<Rightarrow> ('v, int) pulled \<times> int list \<times> rangeRegions_state" where
  "rangeRegions_next dataAccessor s =
     (if rs_nextIndex s < rs_end s
      then (let regionElementCount = rs_regionElementCount s + 1;
                nextIndex = rs_nextIndex s + rs_increment s;
                s1 = s\<lparr> rs_nextIndex := nextIndex, rs_regionElementCount := regionElementCount \<rparr>
            in if rs_regionCount s < length (rs_regions s)
               then (case rs_regions s ! rs_regionCount s of (off0, rsize, off1) \<Rightarrow>
                 (Value (dataAccessor (rs_nextIndex s)),
                  [rs_nextIndex s],
                  (if regionElementCount = rsize
                   then (let regionCount = rs_regionCount s + 1;
                             nextIndex1 = nextIndex + off1;
                             nextIndex2 =
                               (if regionCount < length (rs_regions s)
                                then nextIndex1 + fst (rs_regions s ! regionCount)
                                else nextIndex1)
                         in s\<lparr> rs_nextIndex := nextIndex2,
                               rs_regionCount := regionCount,
                               rs_regionElementCount := 0 \<rparr>)
                   else s1)))
               else (Throws TypeError, [rs_nextIndex s], s1))
      else (Done (rs_end s), [], s))"

subsection \<open>range3d\<close>

text \<open>
  The planar component stride is the JavaScript quotient \<open>(end - start) / 3\<close>, which is
  not an integer unless \<open>end - start\<close> is a multiple of 3: the second and third cursor
  and the accessor's argument are rationals. The emitted value is the array of the three
  components, and the final object carries the index \<open>[end]\<close>.
\<close>

record range3d_state =
  r3_nextIndex :: int
  r3_nextIndex1 :: rat
  r3_nextIndex2 :: rat
  r3_end :: int
  r3_increment :: int

definition range3d :: "int \<Rightarrow> int \<Rightarrow> int option \<Rightarrow> bool option \<Rightarrow> range3d_state" where
  "range3d start end increment isPlanar =
     (let increment0 = (case increment of None \<Rightarrow> 1 | Some i \<Rightarrow> i);
          planar = (case isPlanar of None \<Rightarrow> False | Some b \<Rightarrow> b);
          componentIncrement = (if planar then (of_int (end - start) :: rat) / 3 else 1);
          increment1 = (if planar then increment0 else increment0 * 3)
      in \<lparr> r3_nextIndex = start,
           r3_nextIndex1 = of_int start + componentIncrement,
           r3_nextIndex2 = of_int start + 2 * componentIncrement,
           r3_end = end,
           r3_increment = increment1 \<rparr>)"

definition range3d_next ::
  "(rat \<Rightarrow> 'v) \<Rightarrow> range3d_state \<Rightarrow> ('v \<times> 'v \<times> 'v, int list) pulled \<times> rat list \<times> range3d_state" where
  "range3d_next dataAccessor s =
     (if r3_nextIndex s < r3_end s
      then (Value (dataAccessor (of_int (r3_nextIndex s)),
                   dataAccessor (r3_nextIndex1 s),
                   dataAccessor (r3_nextIndex2 s)),
            [of_int (r3_nextIndex s), r3_nextIndex1 s, r3_nextIndex2 s],
            s\<lparr> r3_nextIndex := r3_nextIndex s + r3_increment s,
               r3_nextIndex1 := r3_nextIndex1 s + of_int (r3_increment s),
               r3_nextIndex2 := r3_nextIndex2 s + of_int (r3_increment s) \<rparr>)
      else (Done [r3_end s], [], s))"

subsection \<open>getIteratorValues\<close>

text \<open>
  The draining loop pushes every emitted value and stops at the first done object. It
  runs forever on an iterator that never finishes, so the model is a partial function:
  \<open>None\<close> is a loop that does not return, \<open>Some (Inl e)\<close> a pull that raised.
\<close>

partial_function (option) getIteratorValues_loop ::
  "('s \<Rightarrow> ('v, 'i) pulled \<times> 'r list \<times> 's) \<Rightarrow> 's \<Rightarrow> 'v list \<Rightarrow> (error + 'v list) option" where
  "getIteratorValues_loop pull s values =
     (case pull s of
        (Done i, rs, s') \<Rightarrow> Some (Inr values)
      | (Throws e, rs, s') \<Rightarrow> Some (Inl e)
      | (Value v, rs, s') \<Rightarrow> getIteratorValues_loop pull s' (values @ [v]))"

declare getIteratorValues_loop.simps [code]

definition getIteratorValues ::
  "('s \<Rightarrow> ('v, 'i) pulled \<times> 'r list \<times> 's) \<Rightarrow> 's \<Rightarrow> (error + 'v list) option" where
  "getIteratorValues pull s = getIteratorValues_loop pull s []"

text \<open>The result, the accessor calls and the state of the pull number \<open>n\<close> (from 0).\<close>

fun pull_n :: "('s \<Rightarrow> 'p \<times> 'r list \<times> 's) \<Rightarrow> nat \<Rightarrow> 's \<Rightarrow> 'p \<times> 'r list \<times> 's" where
  "pull_n pull 0 s = pull s"
| "pull_n pull (Suc n) s = pull_n pull n (snd (snd (pull s)))"

section \<open>Numbers, arrays and the store\<close>

text \<open>
  Sample values, slopes and intercepts are JavaScript numbers, modelled as rationals.
  Their products and sums are exact: the rounding of doubles is modelled in one place
  only, the increment of the cursor of the histogram's bucket loop, where it decides
  whether the loop ends. A value that may be
  \<open>undefined\<close> or \<open>NaN\<close> is a \<open>rat option\<close>, \<open>None\<close> standing for both: every
  comparison with it is false and arithmetic on it gives it back.

  The number of components is the quotient \<open>buffer.length / totalSize\<close>, which is not
  finite for an empty geometry, so it and the sizes computed from it are a \<open>jsnum\<close>.
\<close>

datatype jsnum = Fin rat | PosInf | NaN

definition js_div_nat :: "nat \<Rightarrow> nat \<Rightarrow> jsnum" where
  "js_div_nat a b =
     (if b = 0 then (if a = 0 then NaN else PosInf) else Fin (of_nat a / of_nat b))"

definition js_times_nat :: "jsnum \<Rightarrow> nat \<Rightarrow> jsnum" where
  "js_times_nat x n =
     (case x of
        Fin q \<Rightarrow> Fin (q * of_nat n)
      | PosInf \<Rightarrow> (if n = 0 then NaN else PosInf)
      | NaN \<Rightarrow> NaN)"

definition js_plus :: "jsnum \<Rightarrow> jsnum \<Rightarrow> jsnum" where
  "js_plus x y =
     (case (x, y) of
        (Fin a, Fin b) \<Rightarrow> Fin (a + b)
      | (NaN, _) \<Rightarrow> NaN
      | (_, NaN) \<Rightarrow> NaN
      | _ \<Rightarrow> PosInf)"

definition js_gt :: "rat option \<Rightarrow> rat option \<Rightarrow> bool" where
  "js_gt a b = (case (a, b) of (Some x, Some y) \<Rightarrow> x > y | _ \<Rightarrow> False)"

definition js_lt :: "rat option \<Rightarrow> rat option \<Rightarrow> bool" where
  "js_lt a b = (case (a, b) of (Some x, Some y) \<Rightarrow> x < y | _ \<Rightarrow> False)"

text \<open>
  ToIntegerOrInfinity truncates towards zero and maps NaN to 0. An index argument of
  \<open>splice\<close> and \<open>subarray\<close> is then taken relative to the length and clamped to it;
  the offset of a typed array's \<open>set\<close> is not clamped: the call raises a RangeError
  when the source does not fit.
\<close>

definition js_trunc :: "rat \<Rightarrow> int" where
  "js_trunc q = (if q < 0 then \<lceil>q\<rceil> else \<lfloor>q\<rfloor>)"

definition relative_index :: "jsnum \<Rightarrow> nat \<Rightarrow> nat" where
  "relative_index x len =
     (case x of
        Fin q \<Rightarrow>
          (if js_trunc q < 0 then nat (max (int len + js_trunc q) 0)
           else min (nat (js_trunc q)) len)
      | PosInf \<Rightarrow> len
      | NaN \<Rightarrow> 0)"

definition splice_insert :: "jsnum option \<Rightarrow> 'a \<Rightarrow> 'a list \<Rightarrow> 'a list" where
  "splice_insert start x xs =
     (let k = (case start of None \<Rightarrow> 0 | Some n \<Rightarrow> relative_index n (length xs))
      in take k xs @ [x] @ drop k xs)"

definition subarray :: "'a list \<Rightarrow> jsnum \<Rightarrow> jsnum \<Rightarrow> 'a list" where
  "subarray xs begin end =
     (let b = relative_index begin (length xs);
          e = relative_index end (length xs)
      in take (e - b) (drop b xs))"

definition typed_set :: "'a list \<Rightarrow> 'a list \<Rightarrow> jsnum \<Rightarrow> error + 'a list" where
  "typed_set target source offset =
     (case offset of
        PosInf \<Rightarrow> Inl RangeError
      | NaN \<Rightarrow>
          (if length source > length target then Inl RangeError
           else Inr (source @ drop (length source) target))
      | Fin q \<Rightarrow>
          (if js_trunc q < 0 \<or> nat (js_trunc q) + length source > length target
           then Inl RangeError
           else Inr (take (nat (js_trunc q)) target @ source @
                     drop (nat (js_trunc q) + length source) target)))"

text \<open>
  Sample buffers are mutable arrays that several objects may hold, so they live in a
  store: a buffer is the address of its array. Allocation extends the store, so a new
  array never shares its address with an allocated one. An address outside the store
  names no array of the program; it is read as the empty array. An array holds the
  numbers written to it as they are: the conversion of a typed array to its element
  type is not modelled.
\<close>

type_synonym heap = "rat list list"

definition buf_of :: "heap \<Rightarrow> nat \<Rightarrow> rat list" where
  "buf_of h a = (if a < length h then h ! a else [])"

definition heap_alloc :: "heap \<Rightarrow> rat list \<Rightarrow> nat \<times> heap" where
  "heap_alloc h xs = (length h, h @ [xs])"

definition heap_put :: "heap \<Rightarrow> nat \<Rightarrow> rat list \<Rightarrow> heap" where
  "heap_put h a xs = (if a < length h then h[a := xs] else h)"

text \<open>
  The assignment \<open>b[i] = v\<close> to a typed array \<open>b\<close>: an index outside the array is
  ignored (the array keeps its length).
\<close>

definition buffer_write :: "heap \<Rightarrow> nat \<Rightarrow> int \<Rightarrow> rat \<Rightarrow> heap" where
  "buffer_write h a i v =
     (if 0 \<le> i \<and> nat i < length (buf_of h a)
      then heap_put h a ((buf_of h a)[nat i := v])
      else h)"

section \<open>Collaborators of the image\<close>

subsection \<open>RescaleSlopeAndIntercept\<close>

text \<open>
  Modelled from the spec: the class \<open>dwv.image.RescaleSlopeAndIntercept\<close> is not among
  the sources. The spec gives it as an immutable pair with \<open>apply(v) = v*slope + intercept\<close>
  and \<open>isIdentity iff slope == 1 and intercept == 0\<close>. Its equality test (equal within a
  tolerance the spec does not fix) is a parameter of the model, \<open>rsiEquals\<close> below.
\<close>

datatype RescaleSlopeAndIntercept = RSI (getSlope: rat) (getIntercept: rat)

definition isID :: "RescaleSlopeAndIntercept \<Rightarrow> bool" where
  "isID r = (getSlope r = 1 \<and> getIntercept r = 0)"

definition apply_rsi :: "RescaleSlopeAndIntercept \<Rightarrow> rat option \<Rightarrow> rat option" where
  "apply_rsi r v = (case v of None \<Rightarrow> None | Some x \<Rightarrow> Some (x * getSlope r + getIntercept r))"

text \<open>
  What a variable that should hold an RSI can hold at run time: the object, \<open>null\<close>,
  \<open>undefined\<close>, or one of the loop counters that the switch to per-offset mode pushes
  into \<open>rsis\<close>.
\<close>

datatype rsi_value = RsiObject RescaleSlopeAndIntercept | RsiNumber nat | RsiUndefined | RsiNull

fun is_rsi_object :: "rsi_value \<Rightarrow> bool" where
  "is_rsi_object (RsiObject r) = True"
| "is_rsi_object _ = False"

subsection \<open>Size and Index\<close>

text \<open>
  Modelled from the spec: the classes \<open>dwv.image.Size\<close> and \<open>dwv.math.Index\<close> are not
  among the sources. The spec fixes the dimension order (column, row, slice, time, ...),
  \<open>dimSize(k)\<close> as the product of the sizes of the dimensions below \<open>k\<close>, and the flat
  offset of an index as the sum of its coordinates weighted by these products;
  \<open>indexToOffset(index, fromDim)\<close> does the same over the dimensions from \<open>fromDim\<close> on.
  A size has the three spatial dimensions and possibly more; an index is the list of its
  coordinates, one per dimension. The planners also call \<open>getWithNew2D(i, j)\<close> on an
  index, read here as the index with its first two coordinates replaced.
\<close>

record dims =
  ncols :: nat
  nrows :: nat
  nslices :: nat
  higher :: "nat list"

definition dim_values :: "dims \<Rightarrow> nat list" where
  "dim_values sz = ncols sz # nrows sz # nslices sz # higher sz"

definition dim_length :: "dims \<Rightarrow> nat" where
  "dim_length sz = length (dim_values sz)"

definition getDimSize :: "dims \<Rightarrow> nat \<Rightarrow> nat" where
  "getDimSize sz k = prod_list (take k (dim_values sz))"

definition getTotalSize :: "dims \<Rightarrow> nat \<Rightarrow> nat" where
  "getTotalSize sz fromDim = prod_list (drop fromDim (dim_values sz))"

fun weighted_sum :: "int list \<Rightarrow> nat list \<Rightarrow> nat \<Rightarrow> int" where
  "weighted_sum (i # is) (d # ds) w = i * int w + weighted_sum is ds (w * d)"
| "weighted_sum _ _ w = 0"

definition indexToOffset :: "dims \<Rightarrow> int list \<Rightarrow> nat \<Rightarrow> int" where
  "indexToOffset sz index fromDim =
     weighted_sum (drop fromDim index) (drop fromDim (dim_values sz)) 1"

fun offsetToIndex_from :: "nat list \<Rightarrow> nat \<Rightarrow> int list" where
  "offsetToIndex_from [] off = []"
| "offsetToIndex_from [d] off = [int off]"
| "offsetToIndex_from (d # ds) off =
     (if d = 0 then 0 # offsetToIndex_from ds 0
      else int (off mod d) # offsetToIndex_from ds (off div d))"

definition offsetToIndex :: "dims \<Rightarrow> nat \<Rightarrow> int list" where
  "offsetToIndex sz off = offsetToIndex_from (dim_values sz) off"

definition getWithNew2D :: "int list \<Rightarrow> int \<Rightarrow> int \<Rightarrow> int list" where
  "getWithNew2D index i j = i # j # drop 2 index"

subsection \<open>Geometry, allocator and equality tests\<close>

text \<open>
  The geometry class, the typed-array allocator \<open>dwv.dicom.getTypedArray\<close> and the
  equality tests of orientations, RSIs and window levels are not among the sources. The
  image consumes them as capabilities, and the model takes them as parameters:
  \<open>'g\<close> is the geometry, \<open>'o\<close> an origin, \<open>'w\<close> a window level and \<open>'mv\<close> a meta value.
  \<^item> \<open>getSize g\<close> is \<open>g.getSize()\<close>;
  \<^item> \<open>sameOrientation g g'\<close> is \<open>g.getOrientation().equals(g'.getOrientation(), 0.0001)\<close>;
  \<^item> \<open>getOrigin\<close>, \<open>getSliceIndex\<close> and \<open>appendOrigin\<close> are the methods of these names
    (\<open>appendOrigin\<close> returns the updated geometry);
  \<^item> \<open>getTypedArray old isSigned n\<close> is the allocation of an array of \<open>n\<close> elements of
    the element width of \<open>old\<close> and the signedness \<open>isSigned\<close>, \<open>None\<close> when it
    returns \<open>null\<close>;
  \<^item> \<open>rsiEquals r r'\<close> is \<open>r.equals(r')\<close> on two RSIs and \<open>wlEquals\<close> the equality
    of window levels, whose argument may be \<open>undefined\<close>.
\<close>

record ('g, 'o, 'w, 'mv) capabilities =
  getSize :: "'g \<Rightarrow> dims"
  sameOrientation :: "'g \<Rightarrow> 'g \<Rightarrow> bool"
  getOrigin :: "'g \<Rightarrow> 'o"
  getSliceIndex :: "'g \<Rightarrow> 'o \<Rightarrow> nat"
  appendOrigin :: "'g \<Rightarrow> 'o \<Rightarrow> nat \<Rightarrow> 'g"
  getTypedArray :: "rat list \<Rightarrow> 'mv option \<Rightarrow> jsnum \<Rightarrow> rat list option"
  rsiEquals :: "RescaleSlopeAndIntercept \<Rightarrow> RescaleSlopeAndIntercept \<Rightarrow> bool"
  wlEquals :: "'w \<Rightarrow> 'w option \<Rightarrow> bool"

section \<open>The image (src/src/image/image.js)\<close>

text \<open>
  The meta object maps keys to values. The two keys the code reads by name with a known
  type are fields of their own; every other key is an entry of \<open>otherMeta\<close>, in
  enumeration order, and its value is a defined value compared by \<open>===\<close> (a key that
  holds \<open>undefined\<close> reads like a missing key and is not an entry). A window preset
  holds its list \<open>wl\<close> (an element may be \<open>undefined\<close>) and its flag \<open>perslice\<close>
  (which may be missing).
\<close>

record 'w preset =
  wl :: "'w option list"
  perslice :: "bool option"

record ('mv, 'w) meta =
  numberOfFiles :: "nat option"
  windowPresets :: "(string \<times> 'w preset) list option"
  otherMeta :: "(string \<times> 'mv) list"

text \<open>
  The private variables of the constructor's closure. \<open>buffer\<close> is the address of the
  sample array in the store, \<open>None\<close> when the variable holds \<open>null\<close>. The three caches
  are \<open>None\<close> while they hold \<open>null\<close>. The geometry, the UID list and the meta object
  are kept by value: no operation below depends on their being shared.
\<close>

record ('g, 'u, 'mv, 'w) image =
  geometry :: 'g
  buffer :: "nat option"
  imageUids :: "'u option list"
  rsi :: rsi_value
  rsis :: "rsi_value list option"
  isIdentityRSI :: bool
  isConstantRSI :: bool
  photometricInterpretation :: string
  planarConfiguration :: nat
  numberOfComponents :: jsnum
  imageMeta :: "('mv, 'w) meta"
  dataRange :: "(rat option \<times> rat option) option"
  rescaledDataRange :: "(rat option \<times> rat option) option"
  histogram :: "(rat \<times> nat) list option"

text \<open>The constructor \<open>new dwv.image.Image(geometry, buffer, imageUids)\<close>.\<close>

definition Image ::
  "('g, 'o, 'w, 'mv) capabilities \<Rightarrow> heap \<Rightarrow> 'g \<Rightarrow> nat \<Rightarrow> 'u option list \<Rightarrow>
   ('g, 'u, 'mv, 'w) image" where
  "Image cap h geom buf uids =
     \<lparr> geometry = geom,
       buffer = Some buf,
       imageUids = uids,
       rsi = RsiObject (RSI 1 0),
       rsis = None,
       isIdentityRSI = True,
       isConstantRSI = True,
       photometricInterpretation = ''MONOCHROME2'',
       planarConfiguration = 0,
       numberOfComponents =
         js_div_nat (length (buf_of h buf)) (getTotalSize (getSize cap geom) 0),
       imageMeta = \<lparr> numberOfFiles = None, windowPresets = None, otherMeta = [] \<rparr>,
       dataRange = None,
       rescaledDataRange = None,
       histogram = None \<rparr>"

definition getImageUid ::
  "('g, 'o, 'w, 'mv) capabilities \<Rightarrow> ('g, 'u, 'mv, 'w) image \<Rightarrow> int list option \<Rightarrow> 'u option" where
  "getImageUid cap img index =
     (let uid = (case imageUids img of [] \<Rightarrow> None | u # _ \<Rightarrow> u)
      in case index of
           None \<Rightarrow> uid
         | Some idx \<Rightarrow>
             (if length (imageUids img) \<noteq> 1
              then (let k = indexToOffset (getSize cap (geometry img)) idx 2
                    in if 0 \<le> k \<and> nat k < length (imageUids img)
                       then imageUids img ! nat k else None)
              else uid))"

definition getSecondaryOffsetMax ::
  "('g, 'o, 'w, 'mv) capabilities \<Rightarrow> ('g, 'u, 'mv, 'w) image \<Rightarrow> nat" where
  "getSecondaryOffsetMax cap img = getTotalSize (getSize cap (geometry img)) 2"

definition getSecondaryOffset ::
  "('g, 'o, 'w, 'mv) capabilities \<Rightarrow> ('g, 'u, 'mv, 'w) image \<Rightarrow> int list \<Rightarrow> int" where
  "getSecondaryOffset cap img index = indexToOffset (getSize cap (geometry img)) index 2"

text \<open>
  \<open>getRescaleSlopeAndIntercept(index)\<close>: the constant RSI, or on the per-offset path the
  entry of \<open>rsis\<close> at the secondary offset of the index (the constant one, with a
  warning, when that entry is \<open>undefined\<close>).
\<close>

definition getRescaleSlopeAndIntercept ::
  "('g, 'o, 'w, 'mv) capabilities \<Rightarrow> ('g, 'u, 'mv, 'w) image \<Rightarrow> int list option \<Rightarrow>
   error + rsi_value" where
  "getRescaleSlopeAndIntercept cap img index =
     (if \<not> isConstantRSI img
      then (case index of
              None \<Rightarrow> Inl CannotGetNonConstantRSI
            | Some idx \<Rightarrow>
                (case rsis img of
                   None \<Rightarrow> Inl TypeError
                 | Some rs \<Rightarrow>
                     (let offset = getSecondaryOffset cap img idx
                      in if 0 \<le> offset \<and> nat offset < length rs \<and>
                            rs ! nat offset \<noteq> RsiUndefined
                         then Inr (rs ! nat offset)
                         else Inr (rsi img))))
      else Inr (rsi img))"

definition getRescaleSlopeAndInterceptAtOffset ::
  "('g, 'u, 'mv, 'w) image \<Rightarrow> nat \<Rightarrow> error + rsi_value" where
  "getRescaleSlopeAndInterceptAtOffset img offset =
     (case rsis img of
        None \<Rightarrow> Inl TypeError
      | Some rs \<Rightarrow> Inr (if offset < length rs then rs ! offset else RsiUndefined))"

text \<open>
  \<open>setRescaleSlopeAndIntercept(inRsi, offset)\<close> tests \<open>typeof index === 'undefined'\<close>
  twice. The function's parameters are \<open>inRsi\<close> and \<open>offset\<close>; neither it nor the
  enclosing constructor declares a variable \<open>index\<close> (the one \<open>var index\<close> of the
  constructor's body belongs to \<open>appendSlice\<close> and is local to that function). The
  name therefore resolves to the global scope, where the sources declare nothing of
  that name: the test is true at every call.

  The argument \<open>inRsi\<close> is any value: \<open>clone\<close> passes what it finds in \<open>rsis\<close>.
  On a value that is not an RSI object the call \<open>inRsi.isID()\<close> raises a TypeError
  (it is evaluated only while the identity flag is set), and so does, in the model,
  the equality test \<open>rsi.equals(inRsi)\<close>. An omitted \<open>offset\<close> is \<open>None\<close>.
\<close>

definition typeof_index_undefined :: bool where
  "typeof_index_undefined = True"

definition setRescaleSlopeAndIntercept ::
  "('g, 'o, 'w, 'mv) capabilities \<Rightarrow> rsi_value \<Rightarrow> jsnum option \<Rightarrow> ('g, 'u, 'mv, 'w) image \<Rightarrow>
   error option \<times> ('g, 'u, 'mv, 'w) image" where
  "setRescaleSlopeAndIntercept cap inRsi offset img =
     (if isIdentityRSI img \<and> \<not> is_rsi_object inRsi
      then (Some TypeError, img)
      else
       (let img1 = img\<lparr> isIdentityRSI :=
                     isIdentityRSI img \<and> (case inRsi of RsiObject r \<Rightarrow> isID r | _ \<Rightarrow> False) \<rparr>
        in if \<not> isConstantRSI img1
           then (if typeof_index_undefined
                 then (Some CannotStoreNonConstantRSI, img1)
                 else (case rsis img1 of
                         None \<Rightarrow> (Some TypeError, img1)
                       | Some rs \<Rightarrow> (None, img1\<lparr> rsis := Some (splice_insert offset inRsi rs) \<rparr>)))
           else (case (rsi img1, inRsi) of
                   (RsiObject r, RsiObject r') \<Rightarrow>
                     (if \<not> rsiEquals cap r r'
                      then (if typeof_index_undefined
                            then (None, img1\<lparr> rsi := inRsi \<rparr>)
                            else (None,
                                  img1\<lparr> isConstantRSI := False,
                                        rsis := Some (splice_insert offset inRsi
                                                  (map RsiNumber [0 ..< getSecondaryOffsetMax cap img1])),
                                        rsi := RsiNull \<rparr>))
                      else (None, img1))
                 | _ \<Rightarrow> (Some TypeError, img1))))"

text \<open>
  \<open>getValueAtOffset(offset)\<close> is \<open>buffer[offset]\<close>: \<open>undefined\<close> outside the array, and
  a TypeError when \<open>buffer\<close> is \<open>null\<close>.
\<close>

definition getValueAtOffset ::
  "heap \<Rightarrow> ('g, 'u, 'mv, 'w) image \<Rightarrow> int \<Rightarrow> error + rat option" where
  "getValueAtOffset h img offset =
     (case buffer img of
        None \<Rightarrow> Inl TypeError
      | Some a \<Rightarrow>
          Inr (if 0 \<le> offset \<and> nat offset < length (buf_of h a)
               then Some (buf_of h a ! nat offset) else None))"

text \<open>
  Calling \<open>apply\<close> on what \<open>getRescaleSlopeAndIntercept\<close> returned. On the per-offset
  path the index comes from \<open>offsetToIndex\<close>, which is given the offset as a natural
  number (a negative offset reads \<open>undefined\<close> from the buffer whatever the RSI).
\<close>

definition apply_value :: "rsi_value \<Rightarrow> rat option \<Rightarrow> error + rat option" where
  "apply_value r v = (case r of RsiObject x \<Rightarrow> Inr (apply_rsi x v) | _ \<Rightarrow> Inl TypeError)"

definition getRescaledValueAtOffset ::
  "('g, 'o, 'w, 'mv) capabilities \<Rightarrow> heap \<Rightarrow> ('g, 'u, 'mv, 'w) image \<Rightarrow> int \<Rightarrow>
   error + rat option" where
  "getRescaledValueAtOffset cap h img offset =
     (case getValueAtOffset h img offset of
        Inl e \<Rightarrow> Inl e
      | Inr val \<Rightarrow>
          (if \<not> isIdentityRSI img
           then (if isConstantRSI img
                 then (case getRescaleSlopeAndIntercept cap img None of
                         Inl e \<Rightarrow> Inl e
                       | Inr r \<Rightarrow> apply_value r val)
                 else (let index = offsetToIndex (getSize cap (geometry img)) (nat offset)
                       in case getRescaleSlopeAndIntercept cap img (Some index) of
                            Inl e \<Rightarrow> Inl e
                          | Inr r \<Rightarrow> apply_value r val))
           else Inr val))"

subsection \<open>clone\<close>

text \<open>
  \<open>clone()\<close> copies the buffer with \<open>buffer.slice(0)\<close> (a new array), constructs the
  copy on the same geometry and UID list, replays the RSI state through
  \<open>setRescaleSlopeAndIntercept\<close>, and copies the tags and the meta. It returns the copy
  (or what was raised) and the store, which holds the new array in both cases. The
  copy is built by the constructor, so its three caches are empty. In the source the
  copy shares the geometry object, the UID array and the meta object with the image;
  the model holds them by value, and only the buffer is an address of the store.
\<close>

fun clone_rsis ::
  "('g, 'o, 'w, 'mv) capabilities \<Rightarrow> ('g, 'u, 'mv, 'w) image \<Rightarrow> nat list \<Rightarrow>
   ('g, 'u, 'mv, 'w) image \<Rightarrow> error option \<times> ('g, 'u, 'mv, 'w) image" where
  "clone_rsis cap img [] copy = (None, copy)"
| "clone_rsis cap img (i # is) copy =
     (case getRescaleSlopeAndInterceptAtOffset img i of
        Inl e \<Rightarrow> (Some e, copy)
      | Inr r \<Rightarrow>
          (case setRescaleSlopeAndIntercept cap r (Some (Fin (of_nat i))) copy of
             (Some e, copy') \<Rightarrow> (Some e, copy')
           | (None, copy') \<Rightarrow> clone_rsis cap img is copy'))"

definition clone ::
  "('g, 'o, 'w, 'mv) capabilities \<Rightarrow> heap \<Rightarrow> ('g, 'u, 'mv, 'w) image \<Rightarrow>
   (error + ('g, 'u, 'mv, 'w) image) \<times> heap" where
  "clone cap h img =
     (case buffer img of
        None \<Rightarrow> (Inl TypeError, h)
      | Some a \<Rightarrow>
          (let (clonedBuffer, h') = heap_alloc h (buf_of h a);
               copy = Image cap h' (geometry img) clonedBuffer (imageUids img);
               replayed =
                 (if isConstantRSI img
                  then (case getRescaleSlopeAndIntercept cap img None of
                          Inl e \<Rightarrow> (Some e, copy)
                        | Inr r \<Rightarrow> setRescaleSlopeAndIntercept cap r None copy)
                  else clone_rsis cap img [0 ..< getSecondaryOffsetMax cap img] copy)
           in case replayed of
                (Some e, copy') \<Rightarrow> (Inl e, h')
              | (None, copy') \<Rightarrow>
                  (Inr (copy'\<lparr> photometricInterpretation := photometricInterpretation img,
                               planarConfiguration := planarConfiguration img,
                               imageMeta := imageMeta img \<rparr>),
                   h')))"

subsection \<open>appendSlice\<close>

text \<open>
  \<open>realloc(size)\<close> replaces the buffer by a new array from the allocator and copies
  the old content into it. The variable \<open>buffer\<close> is assigned before the result is
  tested, so a failed allocation leaves it \<open>null\<close>.
\<close>

definition realloc ::
  "('g, 'o, 'w, 'mv) capabilities \<Rightarrow> jsnum \<Rightarrow> heap \<times> ('g, 'u, 'mv, 'w) image \<Rightarrow>
   error option \<times> heap \<times> ('g, 'u, 'mv, 'w) image" where
  "realloc cap n st =
     (case st of (h, img) \<Rightarrow>
       (case buffer img of
          None \<Rightarrow> (Some TypeError, h, img)
        | Some a \<Rightarrow>
            (let tmpBuffer = buf_of h a
             in case getTypedArray cap tmpBuffer
                       (map_of (otherMeta (imageMeta img)) ''IsSigned'') n of
                  None \<Rightarrow> (Some CannotReallocate, h, img\<lparr> buffer := None \<rparr>)
                | Some fresh \<Rightarrow>
                    (let (a', h') = heap_alloc h fresh
                     in case typed_set fresh tmpBuffer (Fin 0) of
                          Inl e \<Rightarrow> (Some e, h', img\<lparr> buffer := Some a' \<rparr>)
                        | Inr filled \<Rightarrow>
                            (None, heap_put h' a' filled, img\<lparr> buffer := Some a' \<rparr>)))))"

text \<open>
  The loop over the keys of \<open>meta\<close>: the first key, other than the two excluded ones,
  whose value is not strictly equal to the value of the slice under the same key (a key
  the slice does not have reads \<open>undefined\<close> there).
\<close>

fun meta_mismatch ::
  "(string \<times> 'mv) list \<Rightarrow> (string \<Rightarrow> 'mv option) \<Rightarrow> (string \<Rightarrow> 'mv option) \<Rightarrow> error option" where
  "meta_mismatch [] own other = None"
| "meta_mismatch ((key, v) # rest) own other =
     (if key = ''windowPresets'' \<or> key = ''numberOfFiles'' then meta_mismatch rest own other
      else if own key \<noteq> other key then Some (DifferentMeta key)
      else meta_mismatch rest own other)"

text \<open>The checks of the input, up to the calculation of the slice size.\<close>

definition appendSlice_checks ::
  "('g, 'o, 'w, 'mv) capabilities \<Rightarrow> ('g, 'u, 'mv, 'w) image \<Rightarrow> ('g, 'u, 'mv, 'w) image option \<Rightarrow>
   error option" where
  "appendSlice_checks cap img rhs =
     (case rhs of
        None \<Rightarrow> Some CannotAppendNullSlice
      | Some r \<Rightarrow>
          (let rhsSize = getSize cap (geometry r);
               sz = getSize cap (geometry img)
           in if nslices rhsSize \<noteq> 1 then Some CannotAppendMoreThanOneSlice
              else if ncols sz \<noteq> ncols rhsSize then Some DifferentNumberOfColumns
              else if nrows sz \<noteq> nrows rhsSize then Some DifferentNumberOfRows
              else if \<not> sameOrientation cap (geometry img) (geometry r)
                then Some DifferentOrientation
              else if photometricInterpretation img \<noteq> photometricInterpretation r
                then Some DifferentPhotometricInterpretation
              else meta_mismatch (otherMeta (imageMeta img))
                     (map_of (otherMeta (imageMeta img))) (map_of (otherMeta (imageMeta r)))))"

text \<open>
  Moving the content of the first frame to make room for the new slice, and writing the
  new slice (lines 469 to 494). All three writes are \<open>buffer.set\<close> on the image's own
  array. The result is what was raised (\<open>None\<close> for none) and the store as the writes
  left it: when the write of the new slice raises, the content has already been moved.
\<close>

definition buffer_set ::
  "heap \<Rightarrow> nat \<Rightarrow> rat list \<Rightarrow> jsnum \<Rightarrow> error + heap" where
  "buffer_set h a source offset =
     (case typed_set (buf_of h a) source offset of
        Inl e \<Rightarrow> Inl e
      | Inr xs \<Rightarrow> Inr (heap_put h a xs))"

definition appendSlice_store ::
  "heap \<Rightarrow> nat \<Rightarrow> nat option \<Rightarrow> nat \<Rightarrow> nat \<Rightarrow> nat \<Rightarrow> jsnum \<Rightarrow> jsnum \<Rightarrow>
   error option \<times> heap" where
  "appendSlice_store h a rhsBuffer timeId newSliceIndex oldNumberOfSlices sliceSize primaryOffset =
     (let moved =
            (if timeId = 0
             then (if newSliceIndex = 0
                   then buffer_set h a
                          (subarray (buf_of h a) primaryOffset
                             (js_plus primaryOffset (js_times_nat sliceSize oldNumberOfSlices)))
                          (js_plus primaryOffset sliceSize)
                   else if newSliceIndex < oldNumberOfSlices
                   then buffer_set h a
                          (subarray (buf_of h a) primaryOffset
                             (js_plus primaryOffset
                                (js_times_nat sliceSize (oldNumberOfSlices - newSliceIndex))))
                          (js_plus primaryOffset sliceSize)
                   else Inr h)
             else Inr h)
      in case moved of
           Inl e \<Rightarrow> (Some e, h)
         | Inr h1 \<Rightarrow>
             (case rhsBuffer of
                None \<Rightarrow> (Some TypeError, h1)
              | Some b \<Rightarrow>
                  (case buffer_set h1 a (buf_of h1 b) primaryOffset of
                     Inl e \<Rightarrow> (Some e, h1)
                   | Inr h2 \<Rightarrow> (None, h2))))"

text \<open>
  The update of the window presets (lines 511 to 546), one key of the slice's presets
  at a time; the presets object is updated in place, so the keys done before a
  TypeError keep their update.
\<close>

definition preset_put :: "string \<Rightarrow> 'w preset \<Rightarrow> (string \<times> 'w preset) list \<Rightarrow> (string \<times> 'w preset) list" where
  "preset_put k p ps =
     (case map_of ps k of
        None \<Rightarrow> ps @ [(k, p)]
      | Some old \<Rightarrow> map (\<lambda>(k', p'). if k' = k then (k', p) else (k', p')) ps)"

definition first_wl :: "'w preset \<Rightarrow> 'w option" where
  "first_wl p = (case wl p of [] \<Rightarrow> None | w # _ \<Rightarrow> w)"

fun update_presets ::
  "('g, 'o, 'w, 'mv) capabilities \<Rightarrow> nat \<Rightarrow> jsnum \<Rightarrow> (string \<times> 'w preset) list \<Rightarrow>
   (string \<times> 'w preset) list \<Rightarrow> error option \<times> (string \<times> 'w preset) list" where
  "update_presets cap numberOfImages secondaryOffset [] presets = (None, presets)"
| "update_presets cap numberOfImages secondaryOffset ((pkey, rhsPreset) # keys) presets =
     (case map_of presets pkey of
        None \<Rightarrow>
          update_presets cap numberOfImages secondaryOffset keys
            (preset_put pkey rhsPreset presets)
      | Some windowPreset \<Rightarrow>
          (if perslice windowPreset = None \<or> perslice windowPreset = Some False
           then (case first_wl windowPreset of
                   None \<Rightarrow> (Some TypeError, presets)
                 | Some w0 \<Rightarrow>
                     (if \<not> wlEquals cap w0 (first_wl rhsPreset)
                      then update_presets cap numberOfImages secondaryOffset keys
                             (preset_put pkey
                                (windowPreset\<lparr> perslice := Some True,
                                    wl := splice_insert (Some secondaryOffset) (first_wl rhsPreset)
                                            (wl windowPreset @
                                             replicate (numberOfImages - 1) (Some w0)) \<rparr>)
                                presets)
                      else update_presets cap numberOfImages secondaryOffset keys presets))
           else update_presets cap numberOfImages secondaryOffset keys
                  (preset_put pkey
                     (windowPreset\<lparr> wl := splice_insert (Some secondaryOffset) (first_wl rhsPreset)
                                            (wl windowPreset) \<rparr>)
                     presets)))"

text \<open>
  Growing the buffer to its full size (lines 443 to 456): the slice size, the number of
  files, which must be known, and the reallocation when the length differs.
\<close>

definition appendSlice_grow ::
  "('g, 'o, 'w, 'mv) capabilities \<Rightarrow> heap \<times> ('g, 'u, 'mv, 'w) image \<Rightarrow>
   error option \<times> heap \<times> ('g, 'u, 'mv, 'w) image" where
  "appendSlice_grow cap st =
     (case st of (h, img) \<Rightarrow>
       (let sz = getSize cap (geometry img);
            sliceSize = js_times_nat (numberOfComponents img) (getDimSize sz 2)
        in case numberOfFiles (imageMeta img) of
             None \<Rightarrow> (Some MissingNumberOfFiles, h, img)
           | Some nFiles \<Rightarrow>
               (let fullBufferSize0 = js_times_nat sliceSize nFiles;
                    fullBufferSize =
                      (if dim_length sz = 4
                       then js_times_nat fullBufferSize0 (dim_values sz ! 3)
                       else fullBufferSize0)
                in case buffer img of
                     None \<Rightarrow> (Some TypeError, h, img)
                   | Some a \<Rightarrow>
                       (if Fin (of_nat (length (buf_of h a))) \<noteq> fullBufferSize
                        then realloc cap fullBufferSize (h, img)
                        else (None, h, img)))))"

text \<open>
  The tail of \<open>appendSlice\<close> (lines 505 to 546): the UID of the slice is spliced into
  the UID list, then the window presets are updated when the image has some.
\<close>

definition appendSlice_uids_presets ::
  "('g, 'o, 'w, 'mv) capabilities \<Rightarrow> ('g, 'u, 'mv, 'w) image \<Rightarrow> jsnum \<Rightarrow>
   ('g, 'u, 'mv, 'w) image \<Rightarrow> error option \<times> ('g, 'u, 'mv, 'w) image" where
  "appendSlice_uids_presets cap r secondaryOffset img =
     (let numberOfImages = length (imageUids img);
          img1 = img\<lparr> imageUids :=
                   splice_insert (Some secondaryOffset) (getImageUid cap r None) (imageUids img) \<rparr>
      in case windowPresets (imageMeta img1) of
           None \<Rightarrow> (None, img1)
         | Some presets \<Rightarrow>
             (case windowPresets (imageMeta r) of
                None \<Rightarrow> (Some TypeError, img1)
              | Some rhsPresets \<Rightarrow>
                  (case update_presets cap numberOfImages secondaryOffset rhsPresets presets of
                     (e, presets') \<Rightarrow>
                       (e, img1\<lparr> imageMeta :=
                                  (imageMeta img1)\<lparr> windowPresets := Some presets' \<rparr> \<rparr>))))"

text \<open>
  The middle of \<open>appendSlice\<close> (lines 458 to 503), on the buffer at its full size: the
  index and the two offsets of the new slice, the writes to the buffer, the new origin
  of the geometry (first frame only) and the RSI of the slice.
\<close>

definition appendSlice_insert ::
  "('g, 'o, 'w, 'mv) capabilities \<Rightarrow> ('g, 'u, 'mv, 'w) image \<Rightarrow> nat \<Rightarrow> dims \<Rightarrow>
   heap \<times> ('g, 'u, 'mv, 'w) image \<Rightarrow> error option \<times> heap \<times> ('g, 'u, 'mv, 'w) image" where
  "appendSlice_insert cap r timeId sz st =
     (case st of (h, img) \<Rightarrow>
       (case buffer img of
          None \<Rightarrow> (Some TypeError, h, img)
        | Some a \<Rightarrow>
            (let sliceSize = js_times_nat (numberOfComponents img) (getDimSize sz 2);
                 newSliceIndex = getSliceIndex cap (geometry img) (getOrigin cap (geometry r));
                 values0 = (replicate (dim_length sz) (0::int))[2 := int newSliceIndex];
                 values = (if dim_length sz = 4 then values0[3 := int timeId] else values0);
                 primaryOffset =
                   js_times_nat (numberOfComponents img) (nat (indexToOffset sz values 0));
                 secondaryOffset =
                   js_times_nat (numberOfComponents img) (nat (getSecondaryOffset cap img values))
             in case appendSlice_store h a (buffer r) timeId newSliceIndex (nslices sz)
                       sliceSize primaryOffset of
                  (Some e, h') \<Rightarrow> (Some e, h', img)
                | (None, h') \<Rightarrow>
                    (let img1 =
                           (if timeId = 0
                            then img\<lparr> geometry :=
                                   appendOrigin cap (geometry img) (getOrigin cap (geometry r))
                                     newSliceIndex \<rparr>
                            else img)
                     in case getRescaleSlopeAndIntercept cap r None of
                          Inl e \<Rightarrow> (Some e, h', img1)
                        | Inr rhsRsi \<Rightarrow>
                            (case setRescaleSlopeAndIntercept cap rhsRsi (Some secondaryOffset) img1 of
                               (Some e, img2) \<Rightarrow> (Some e, h', img2)
                             | (None, img2) \<Rightarrow>
                                 (case appendSlice_uids_presets cap r secondaryOffset img2 of
                                    (e, img3) \<Rightarrow> (e, h', img3)))))))"

text \<open>
  \<open>appendSlice(rhs, timeId)\<close>: the checks, the growth of the buffer, the insertion. The
  size is read once, before the geometry changes. The result is what was raised
  (\<open>None\<close> for a normal return), the store and the image as the call leaves them.
\<close>

definition appendSlice ::
  "('g, 'o, 'w, 'mv) capabilities \<Rightarrow> ('g, 'u, 'mv, 'w) image option \<Rightarrow> nat option \<Rightarrow>
   heap \<times> ('g, 'u, 'mv, 'w) image \<Rightarrow> error option \<times> heap \<times> ('g, 'u, 'mv, 'w) image" where
  "appendSlice cap rhs timeId0 st =
     (case st of (h, img) \<Rightarrow>
       (let timeId = (case timeId0 of None \<Rightarrow> 0 | Some t \<Rightarrow> t)
        in case appendSlice_checks cap img rhs of
             Some e \<Rightarrow> (Some e, h, img)
           | None \<Rightarrow>
               (case rhs of
                  None \<Rightarrow> (Some CannotAppendNullSlice, h, img)
                | Some r \<Rightarrow>
                    (case appendSlice_grow cap (h, img) of
                       (Some e, st1) \<Rightarrow> (Some e, st1)
                     | (None, st1) \<Rightarrow>
                         appendSlice_insert cap r timeId (getSize cap (geometry img)) st1))))"

subsection \<open>Data range and histogram\<close>

text \<open>
  \<open>calculateDataRange()\<close> scans the offsets below \<open>leni\<close>, the total size cut to the
  first three dimensions. \<open>getDataRange()\<close> computes it once and caches it.
\<close>

fun dataRange_loop ::
  "heap \<Rightarrow> ('g, 'u, 'mv, 'w) image \<Rightarrow> nat list \<Rightarrow> rat option \<times> rat option \<Rightarrow>
   error + rat option \<times> rat option" where
  "dataRange_loop h img [] (min0, max0) = Inr (min0, max0)"
| "dataRange_loop h img (i # is) (min0, max0) =
     (case getValueAtOffset h img (int i) of
        Inl e \<Rightarrow> Inl e
      | Inr v \<Rightarrow>
          dataRange_loop h img is
            (if js_lt v min0 then v else min0, if js_gt v max0 then v else max0))"

definition calculateDataRange ::
  "('g, 'o, 'w, 'mv) capabilities \<Rightarrow> heap \<Rightarrow> ('g, 'u, 'mv, 'w) image \<Rightarrow>
   error + rat option \<times> rat option" where
  "calculateDataRange cap h img =
     (case getValueAtOffset h img 0 of
        Inl e \<Rightarrow> Inl e
      | Inr min0 \<Rightarrow>
          (let sz = getSize cap (geometry img);
               leni = (if dim_length sz \<ge> 3 then getDimSize sz 3 else getTotalSize sz 0)
           in dataRange_loop h img [0 ..< leni] (min0, min0)))"

definition getDataRange ::
  "('g, 'o, 'w, 'mv) capabilities \<Rightarrow> heap \<Rightarrow> ('g, 'u, 'mv, 'w) image \<Rightarrow>
   (error + rat option \<times> rat option) \<times> ('g, 'u, 'mv, 'w) image" where
  "getDataRange cap h img =
     (case dataRange img of
        Some r \<Rightarrow> (Inr r, img)
      | None \<Rightarrow>
          (case calculateDataRange cap h img of
             Inl e \<Rightarrow> (Inl e, img)
           | Inr r \<Rightarrow> (Inr r, img\<lparr> dataRange := Some r \<rparr>)))"

text \<open>
  The bucket loop of \<open>calculateHistogram()\<close> advances its cursor with \<open>++b\<close>, the
  binary64 sum of \<open>b\<close> and 1: the exact sum rounded to 53 significant bits, to the
  nearest, ties to the even significand. The unit in the last place of \<open>x\<close> is the
  power of two \<open>u\<close> with \<open>2^52 <= |x| / u < 2^53\<close>, and not below \<open>2^-1074\<close>. The sum
  of a finite double and 1 is never infinite, so the result is a rational again. From
  \<open>2^53\<close> on the sum rounds back to \<open>b\<close> itself wherever the significand of \<open>b\<close> is
  even, and the cursor no longer advances.
\<close>

definition significand_bits :: nat where
  "significand_bits = 53"

definition smallest_exponent :: nat where
  "smallest_exponent = 1074"

function ulp_exponent_up :: "rat \<Rightarrow> nat \<Rightarrow> nat" where
  "ulp_exponent_up x k =
     (if 2 ^ (significand_bits + k) \<le> \<bar>x\<bar> then ulp_exponent_up x (Suc k) else k)"
  by pat_completeness auto
termination
proof (relation "measure (\<lambda>(x, k). nat \<lfloor>\<bar>x\<bar>\<rfloor> + 1 - 2 ^ (significand_bits + k))", goal_cases)
  case 1
  show ?case by (rule wf_measure)
next
  case (2 x k)
  define p where "p = significand_bits + k"
  from 2 have "(2::rat) ^ p \<le> \<bar>x\<bar>" by (simp only: p_def)
  then have "of_int ((2::int) ^ p) \<le> \<bar>x\<bar>" by simp
  then have "(2::int) ^ p \<le> \<lfloor>\<bar>x\<bar>\<rfloor>" by (simp only: le_floor_iff)
  then have "int ((2::nat) ^ p) \<le> \<lfloor>\<bar>x\<bar>\<rfloor>" by simp
  then have a: "(2::nat) ^ p \<le> nat \<lfloor>\<bar>x\<bar>\<rfloor>" by linarith
  have b: "(2::nat) ^ p < 2 ^ Suc p" by simp
  have "nat \<lfloor>\<bar>x\<bar>\<rfloor> + 1 - 2 ^ Suc p < nat \<lfloor>\<bar>x\<bar>\<rfloor> + 1 - 2 ^ p"
    using a b by linarith
  then show ?case by (simp add: p_def)
qed

fun ulp_exponent_down :: "rat \<Rightarrow> nat \<Rightarrow> nat \<Rightarrow> nat" where
  "ulp_exponent_down x 0 j = j"
| "ulp_exponent_down x (Suc n) j =
     (if \<bar>x\<bar> * 2 ^ Suc j < 2 ^ significand_bits then ulp_exponent_down x n (Suc j) else j)"

definition ulp :: "rat \<Rightarrow> rat" where
  "ulp x = (if 2 ^ significand_bits \<le> \<bar>x\<bar> then 2 ^ ulp_exponent_up x 0
            else 1 / 2 ^ ulp_exponent_down x smallest_exponent 0)"

definition round_half_even :: "rat \<Rightarrow> int" where
  "round_half_even y =
     (let f = \<lfloor>y\<rfloor>; d = y - of_int f
      in if d < 1 / 2 then f else if 1 / 2 < d then f + 1 else if even f then f else f + 1)"

definition fp_round :: "rat \<Rightarrow> rat" where
  "fp_round x = (if x = 0 then 0 else of_int (round_half_even (x / ulp x)) * ulp x)"

definition js_increment :: "rat \<Rightarrow> rat" where
  "js_increment b = fp_round (b + 1)"

text \<open>
  \<open>calculateHistogram()\<close> scans the offsets below the total size of the geometry. The
  sparse array \<open>histo\<close> is the function from a key to its count, 0 where the array has
  no entry (the code reads \<open>histo[b] || 0\<close>). The second loop runs \<open>b\<close> from \<open>rmin\<close>
  with \<open>++b\<close> while \<open>b <= rmax\<close>; it makes no step when either bound is not a number.
  It does not end when the cursor stops advancing at or below \<open>rmax\<close>, so the model is a
  partial function: \<open>None\<close> is a call that does not return.
\<close>

record histo_state =
  hs_min :: "rat option"
  hs_max :: "rat option"
  hs_rmin :: "rat option"
  hs_rmax :: "rat option"
  hs_histo :: "rat option \<Rightarrow> nat"

fun histogram_scan ::
  "('g, 'o, 'w, 'mv) capabilities \<Rightarrow> heap \<Rightarrow> ('g, 'u, 'mv, 'w) image \<Rightarrow> nat list \<Rightarrow>
   histo_state \<Rightarrow> error + histo_state" where
  "histogram_scan cap h img [] s = Inr s"
| "histogram_scan cap h img (i # is) s =
     (case getValueAtOffset h img (int i) of
        Inl e \<Rightarrow> Inl e
      | Inr v \<Rightarrow>
          (case getRescaledValueAtOffset cap h img (int i) of
             Inl e \<Rightarrow> Inl e
           | Inr rv \<Rightarrow>
               histogram_scan cap h img is
                 \<lparr> hs_min = (if js_lt v (hs_min s) then v else hs_min s),
                   hs_max = (if js_gt v (hs_max s) then v else hs_max s),
                   hs_rmin = (if js_lt rv (hs_rmin s) then rv else hs_rmin s),
                   hs_rmax = (if js_gt rv (hs_rmax s) then rv else hs_rmax s),
                   hs_histo = (hs_histo s)(rv := hs_histo s rv + 1) \<rparr>))"

partial_function (option) histogram_buckets ::
  "(rat option \<Rightarrow> nat) \<Rightarrow> rat \<Rightarrow> rat \<Rightarrow> (rat \<times> nat) list \<Rightarrow> (rat \<times> nat) list option" where
  "histogram_buckets histo b rmax acc =
     (if b \<le> rmax
      then histogram_buckets histo (js_increment b) rmax (acc @ [(b, histo (Some b))])
      else Some acc)"

declare histogram_buckets.simps [code]

record histogram_result =
  res_dataRange :: "rat option \<times> rat option"
  res_rescaledDataRange :: "rat option \<times> rat option"
  res_histogram :: "(rat \<times> nat) list"

definition calculateHistogram ::
  "('g, 'o, 'w, 'mv) capabilities \<Rightarrow> heap \<Rightarrow> ('g, 'u, 'mv, 'w) image \<Rightarrow>
   (error + histogram_result) option" where
  "calculateHistogram cap h img =
     (case getValueAtOffset h img 0 of
        Inl e \<Rightarrow> Some (Inl e)
      | Inr min0 \<Rightarrow>
          (case getRescaledValueAtOffset cap h img 0 of
             Inl e \<Rightarrow> Some (Inl e)
           | Inr rmin0 \<Rightarrow>
               (case histogram_scan cap h img
                       [0 ..< getTotalSize (getSize cap (geometry img)) 0]
                       \<lparr> hs_min = min0, hs_max = min0, hs_rmin = rmin0, hs_rmax = rmin0,
                         hs_histo = (\<lambda>k. 0) \<rparr> of
                  Inl e \<Rightarrow> Some (Inl e)
                | Inr s \<Rightarrow>
                    map_option
                      (\<lambda>buckets. Inr \<lparr> res_dataRange = (hs_min s, hs_max s),
                                          res_rescaledDataRange = (hs_rmin s, hs_rmax s),
                                          res_histogram = buckets \<rparr>)
                      (case (hs_rmin s, hs_rmax s) of
                         (Some b, Some rmax) \<Rightarrow> histogram_buckets (hs_histo s) b rmax []
                       | _ \<Rightarrow> Some []))))"

text \<open>
  \<open>getHistogram()\<close> returns the cached histogram, or computes it and fills the three
  caches. The result is the histogram (or what was raised) and the image with its
  caches, \<open>None\<close> when the computation does not return.
\<close>

definition getHistogram ::
  "('g, 'o, 'w, 'mv) capabilities \<Rightarrow> heap \<Rightarrow> ('g, 'u, 'mv, 'w) image \<Rightarrow>
   ((error + (rat \<times> nat) list) \<times> ('g, 'u, 'mv, 'w) image) option" where
  "getHistogram cap h img =
     (case histogram img of
        Some hg \<Rightarrow> Some (Inr hg, img)
      | None \<Rightarrow>
          (case calculateHistogram cap h img of
             None \<Rightarrow> None
           | Some (Inl e) \<Rightarrow> Some (Inl e, img)
           | Some (Inr res) \<Rightarrow>
               Some (Inr (res_histogram res),
                     img\<lparr> dataRange := Some (res_dataRange res),
                          rescaledDataRange := Some (res_rescaledDataRange res),
                          histogram := Some (res_histogram res) \<rparr>)))"

section \<open>Iterator planners (src/src/image/iterator.js)\<close>

text \<open>
  The accessor that a planner closes over reads the image at the time of each pull, so
  the model hands it to the pull rather than storing it: a planner returns the flag
  that selects the accessor (rescaled or raw) and the iterator's state.
\<close>

definition dataAccessor ::
  "('g, 'o, 'w, 'mv) capabilities \<Rightarrow> heap \<Rightarrow> ('g, 'u, 'mv, 'w) image \<Rightarrow> bool \<Rightarrow> int \<Rightarrow>
   error + rat option" where
  "dataAccessor cap h img isRescaled offset =
     (if isRescaled then getRescaledValueAtOffset cap h img offset
      else getValueAtOffset h img offset)"

text \<open>
  The same accessor under \<open>range3d\<close>, whose offsets are rationals: at an offset that
  is not an integer the buffer read gives \<open>undefined\<close>.
\<close>

definition dataAccessor_rat ::
  "('g, 'o, 'w, 'mv) capabilities \<Rightarrow> heap \<Rightarrow> ('g, 'u, 'mv, 'w) image \<Rightarrow> bool \<Rightarrow> rat \<Rightarrow>
   error + rat option" where
  "dataAccessor_rat cap h img isRescaled q =
     (if of_int \<lfloor>q\<rfloor> = q then dataAccessor cap h img isRescaled \<lfloor>q\<rfloor>
      else (case buffer img of None \<Rightarrow> Inl TypeError | Some a \<Rightarrow> Inr None))"

datatype iterator =
    SimpleRangeIt simpleRange_state
  | RangeIt range_state
  | Range3dIt range3d_state

text \<open>
  \<open>getSliceIterator(image, position, isRescaled, viewOrientation)\<close>. The view
  orientation is consumed only through \<open>getColAbsMax(k).index\<close>, so it is modelled as
  that function of \<open>k\<close>; \<open>None\<close> is an omitted orientation.
\<close>

definition getSliceIterator ::
  "('g, 'o, 'w, 'mv) capabilities \<Rightarrow> ('g, 'u, 'mv, 'w) image \<Rightarrow> int list \<Rightarrow> bool option \<Rightarrow>
   (nat \<Rightarrow> nat) option \<Rightarrow> error + bool \<times> iterator" where
  "getSliceIterator cap img position isRescaled viewOrientation =
     (let dirMax2Index = (case viewOrientation of None \<Rightarrow> 2 | Some vo \<Rightarrow> vo 2);
          posStart = map (\<lambda>(element, index). if index = dirMax2Index then element else 0)
                       (zip position [0 ..< length position]);
          sz = getSize cap (geometry img);
          start = indexToOffset sz posStart 0;
          rescaled = (case isRescaled of None \<Rightarrow> False | Some b \<Rightarrow> b);
          nc = int (ncols sz);
          nr = int (nrows sz);
          ns = int (nslices sz);
          sliceSize = int (getDimSize sz 2)
      in if numberOfComponents img = Fin 1
         then (case viewOrientation of
                 Some vo \<Rightarrow>
                   (if vo 2 = 2
                    then (let end = start + sliceSize - 1
                          in if vo 0 = 0
                             then Inr (rescaled, RangeIt (range_it start end 1 nc nc
                                                  (Some False) (Some False)))
                             else Inr (rescaled, RangeIt (range_it start end nc nr 1
                                                  (Some True) (Some False))))
                    else if vo 2 = 0
                    then (let end = start + (ns - 1) * sliceSize + nc * (nr - 1)
                          in if vo 0 = 1
                             then Inr (rescaled, RangeIt (range_it start end nc nr sliceSize
                                                  (Some True) (Some True)))
                             else Inr (rescaled, RangeIt (range_it start end sliceSize ns nc
                                                  (Some False) (Some True))))
                    else if vo 2 = 1
                    then (let end = start + (ns - 1) * sliceSize + nc - 1
                          in if vo 0 = 0
                             then Inr (rescaled, RangeIt (range_it start end 1 nc sliceSize
                                                  (Some True) (Some True)))
                             else Inr (rescaled, RangeIt (range_it start end sliceSize ns 1
                                                  (Some False) (Some True))))
                    else Inl (UnknownDirection (vo 2)))
               | None \<Rightarrow>
                   Inr (rescaled, SimpleRangeIt (simpleRange start (start + sliceSize) None)))
         else if numberOfComponents img = Fin 3
         then (let start3 = start * 3;
                   sliceSize3 = sliceSize * 3;
                   isPlanar = (planarConfiguration img = 1)
               in Inr (rescaled,
                       Range3dIt (range3d start3 (start3 + sliceSize3) (Some 1) (Some isPlanar))))
         else Inl UnsupportedNumberOfComponents)"

text \<open>A pull on the iterator that \<open>getSliceIterator\<close> returned.\<close>

datatype slice_value = Scalar "error + rat option" | Vector3 "(error + rat option) list"

definition slice_next ::
  "('g, 'o, 'w, 'mv) capabilities \<Rightarrow> heap \<Rightarrow> ('g, 'u, 'mv, 'w) image \<Rightarrow> bool \<times> iterator \<Rightarrow>
   (slice_value, int list) pulled \<times> rat list \<times> (bool \<times> iterator)" where
  "slice_next cap h img it =
     (case it of
        (resc, SimpleRangeIt s) \<Rightarrow>
          (case simpleRange_next (dataAccessor cap h img resc) s of
             (Value v, rs, s') \<Rightarrow> (Value (Scalar v), map of_int rs, (resc, SimpleRangeIt s'))
           | (Done i, rs, s') \<Rightarrow> (Done [i], map of_int rs, (resc, SimpleRangeIt s'))
           | (Throws e, rs, s') \<Rightarrow> (Throws e, map of_int rs, (resc, SimpleRangeIt s')))
      | (resc, RangeIt s) \<Rightarrow>
          (case range_next (dataAccessor cap h img resc) s of
             (Value v, rs, s') \<Rightarrow> (Value (Scalar v), map of_int rs, (resc, RangeIt s'))
           | (Done i, rs, s') \<Rightarrow> (Done [i], map of_int rs, (resc, RangeIt s'))
           | (Throws e, rs, s') \<Rightarrow> (Throws e, map of_int rs, (resc, RangeIt s')))
      | (resc, Range3dIt s) \<Rightarrow>
          (case range3d_next (dataAccessor_rat cap h img resc) s of
             (Value (v0, v1, v2), rs, s') \<Rightarrow> (Value (Vector3 [v0, v1, v2]), rs, (resc, Range3dIt s'))
           | (Done i, rs, s') \<Rightarrow> (Done i, rs, (resc, Range3dIt s'))
           | (Throws e, rs, s') \<Rightarrow> (Throws e, rs, (resc, Range3dIt s'))))"

text \<open>
  \<open>getRegionSliceIterator(image, position, isRescaled, min, max)\<close>; a point is the
  pair of its \<open>x\<close> and \<open>y\<close>, and \<open>minPoint\<close>, \<open>maxPoint\<close> are the arguments
  \<open>min\<close> and \<open>max\<close> (\<open>None\<close> when omitted).
\<close>

definition getRegionSliceIterator ::
  "('g, 'o, 'w, 'mv) capabilities \<Rightarrow> ('g, 'u, 'mv, 'w) image \<Rightarrow> int list \<Rightarrow> bool option \<Rightarrow>
   (int \<times> int) option \<Rightarrow> (int \<times> int) option \<Rightarrow> error + bool \<times> rangeRegion_state" where
  "getRegionSliceIterator cap img position isRescaled minPoint maxPoint =
     (if numberOfComponents img \<noteq> Fin 1
      then Inl UnsupportedNumberOfComponentsForRegion
      else
       (let rescaled = (case isRescaled of None \<Rightarrow> False | Some b \<Rightarrow> b);
            sz = getSize cap (geometry img);
            pmin = (case minPoint of None \<Rightarrow> (0, 0) | Some p \<Rightarrow> p);
            pmax = (case maxPoint of None \<Rightarrow> (int (ncols sz) - 1, int (nrows sz)) | Some p \<Rightarrow> p);
            startOffset = indexToOffset sz (getWithNew2D position (fst pmin) (snd pmin)) 0;
            endOffset = indexToOffset sz (getWithNew2D position (fst pmax) (snd pmax - 1)) 0;
            rangeNumberOfColumns = max 1 (fst pmax - fst pmin);
            rowIncrement = int (ncols sz) - rangeNumberOfColumns
        in Inr (rescaled,
                rangeRegion startOffset (endOffset + 1) 1 rangeNumberOfColumns rowIncrement)))"

definition region_next ::
  "('g, 'o, 'w, 'mv) capabilities \<Rightarrow> heap \<Rightarrow> ('g, 'u, 'mv, 'w) image \<Rightarrow>
   bool \<times> rangeRegion_state \<Rightarrow>
   (error + rat option, int) pulled \<times> int list \<times> (bool \<times> rangeRegion_state)" where
  "region_next cap h img it =
     (case rangeRegion_next (dataAccessor cap h img (fst it)) (snd it) of
        (p, rs, s') \<Rightarrow> (p, rs, (fst it, s')))"

section \<open>The public setters\<close>

definition setPhotometricInterpretation ::
  "string \<Rightarrow> ('g, 'u, 'mv, 'w) image \<Rightarrow> ('g, 'u, 'mv, 'w) image" where
  "setPhotometricInterpretation interp img = img\<lparr> photometricInterpretation := interp \<rparr>"

definition setPlanarConfiguration ::
  "nat \<Rightarrow> ('g, 'u, 'mv, 'w) image \<Rightarrow> ('g, 'u, 'mv, 'w) image" where
  "setPlanarConfiguration config img = img\<lparr> planarConfiguration := config \<rparr>"

definition setMeta ::
  "('mv, 'w) meta \<Rightarrow> ('g, 'u, 'mv, 'w) image \<Rightarrow> ('g, 'u, 'mv, 'w) image" where
  "setMeta rhs img = img\<lparr> imageMeta := rhs \<rparr>"

section \<open>States of an image under its public interface\<close>

text \<open>
  The pairs of a store and an image that a client can produce: it constructs the image,
  and then sets an RSI, appends a slice (any slice, at any time index, whatever the
  call returns or raises), sets a tag or the meta, or changes the content of the store
  (the buffer is handed out by \<open>getBuffer\<close>).
\<close>

inductive api_state ::
  "('g, 'o, 'w, 'mv) capabilities \<Rightarrow> heap \<times> ('g, 'u, 'mv, 'w) image \<Rightarrow> bool"
  for cap :: "('g, 'o, 'w, 'mv) capabilities" where
  constructed: "api_state cap (h, Image cap h geom buf uids)"
| set_rsi:
    "api_state cap (h, img) \<Longrightarrow>
     api_state cap (h, snd (setRescaleSlopeAndIntercept cap inRsi offset img))"
| appended:
    "api_state cap (h, img) \<Longrightarrow>
     api_state cap (snd (appendSlice cap rhs timeId (h, img)))"
| set_photometric:
    "api_state cap (h, img) \<Longrightarrow> api_state cap (h, setPhotometricInterpretation interp img)"
| set_planar:
    "api_state cap (h, img) \<Longrightarrow> api_state cap (h, setPlanarConfiguration config img)"
| set_meta:
    "api_state cap (h, img) \<Longrightarrow> api_state cap (h, setMeta m img)"
| store_written:
    "api_state cap (h, img) \<Longrightarrow> api_state cap (h', img)"

text \<open>
  The validation failures of \<open>appendSlice\<close> as the specification lists them, for a
  slice \<open>r\<close> that is not \<open>null\<close>: a wrong slice count, differing columns, rows,
  orientation or photometric interpretation, a meta key (other than the two excluded
  ones) whose value differs or is missing in the slice, or an unknown number of files.
\<close>

definition differing_meta_keys ::
  "('g, 'u, 'mv, 'w) image \<Rightarrow> ('g, 'u, 'mv, 'w) image \<Rightarrow> string list" where
  "differing_meta_keys img r =
     filter (\<lambda>key. key \<noteq> ''windowPresets'' \<and> key \<noteq> ''numberOfFiles'' \<and>
                   map_of (otherMeta (imageMeta img)) key \<noteq> map_of (otherMeta (imageMeta r)) key)
       (map fst (otherMeta (imageMeta img)))"

definition fails_validation ::
  "('g, 'o, 'w, 'mv) capabilities \<Rightarrow> ('g, 'u, 'mv, 'w) image \<Rightarrow> ('g, 'u, 'mv, 'w) image \<Rightarrow> bool" where
  "fails_validation cap img r =
     (nslices (getSize cap (geometry r)) \<noteq> 1
      \<or> ncols (getSize cap (geometry img)) \<noteq> ncols (getSize cap (geometry r))
      \<or> nrows (getSize cap (geometry img)) \<noteq> nrows (getSize cap (geometry r))
      \<or> \<not> sameOrientation cap (geometry img) (geometry r)
      \<or> photometricInterpretation img \<noteq> photometricInterpretation r
      \<or> differing_meta_keys img r \<noteq> []
      \<or> numberOfFiles (imageMeta img) = None)"

fun descriptive :: "error \<Rightarrow> bool" where
  "descriptive CannotAppendMoreThanOneSlice = True"
| "descriptive DifferentNumberOfColumns = True"
| "descriptive DifferentNumberOfRows = True"
| "descriptive DifferentOrientation = True"
| "descriptive DifferentPhotometricInterpretation = True"
| "descriptive (DifferentMeta key) = True"
| "descriptive MissingNumberOfFiles = True"
| "descriptive _ = False"

section \<open>Concrete collaborators and inputs\<close>

text \<open>
  A plain implementation of the capabilities, to run the model on concrete inputs: a
  geometry is its size and the list of the slice positions along the stack; there is
  one orientation; a new origin is indexed by the number of positions below it and
  adds one slice; the allocator returns zeros; the equality tests are exact.
\<close>

type_synonym plain_geometry = "dims \<times> int list"

definition plain_capabilities :: "(plain_geometry, int, int, string) capabilities" where
  "plain_capabilities =
     \<lparr> getSize = fst,
       sameOrientation = (\<lambda>g g'. True),
       getOrigin = (\<lambda>g. case snd g of [] \<Rightarrow> 0 | z # _ \<Rightarrow> z),
       getSliceIndex = (\<lambda>g z. length (filter (\<lambda>z'. z' < z) (snd g))),
       appendOrigin = (\<lambda>g z k. ((fst g)\<lparr> nslices := nslices (fst g) + 1 \<rparr>,
                                 take k (snd g) @ [z] @ drop k (snd g))),
       getTypedArray = (\<lambda>old isSigned n.
          case n of Fin q \<Rightarrow> (if 0 \<le> q then Some (replicate (nat \<lfloor>q\<rfloor>) 0) else None)
                  | PosInf \<Rightarrow> None
                  | NaN \<Rightarrow> Some []),
       rsiEquals = (=),
       wlEquals = (\<lambda>w w'. Some w = w') \<rparr>"

definition plain_dims :: "nat \<Rightarrow> nat \<Rightarrow> nat \<Rightarrow> dims" where
  "plain_dims c r k = \<lparr> ncols = c, nrows = r, nslices = k, higher = [] \<rparr>"

text \<open>The identity view orientation: view axis \<open>k\<close> is storage axis \<open>k\<close>.\<close>

definition axial :: "nat \<Rightarrow> nat" where
  "axial k = k"

text \<open>
  A one-voxel colour image, the samples \<open>[5, 5, 5]\<close> of its three components at
  address 0 of the store.
\<close>

definition rgb_store :: heap where
  "rgb_store = [[5, 5, 5]]"

definition rgb_image :: "(plain_geometry, string, string, int) image" where
  "rgb_image = Image plain_capabilities rgb_store (plain_dims 1 1 1, [0]) 0 [Some ''uid0'']"

text \<open>
  A grey image of one slice of two columns and two rows, the samples \<open>[10, 11, 12, 13]\<close>
  at address 0 of the store, and a slice of the same shape at address 1.
\<close>

definition grey_store :: heap where
  "grey_store = [[10, 11, 12, 13], [20, 21, 22, 23]]"

definition grey_image :: "(plain_geometry, string, string, int) image" where
  "grey_image = Image plain_capabilities grey_store (plain_dims 2 2 1, [0]) 0 [Some ''uid0'']"

definition grey_slice :: "(plain_geometry, string, string, int) image" where
  "grey_slice = Image plain_capabilities grey_store (plain_dims 2 2 1, [1]) 1 [Some ''uid1'']"

text \<open>
  The same grey image while it is being loaded: the meta holds the number of files and
  the modality. The slice \<open>grey_slice\<close> has no meta, \<open>grey_slice_ct\<close> has the same
  meta as the image.
\<close>

definition loading_meta :: "(string, int) meta" where
  "loading_meta =
     \<lparr> numberOfFiles = Some 2, windowPresets = None, otherMeta = [(''Modality'', ''CT'')] \<rparr>"

definition grey_loading :: "(plain_geometry, string, string, int) image" where
  "grey_loading = setMeta loading_meta grey_image"

definition grey_slice_ct :: "(plain_geometry, string, string, int) image" where
  "grey_slice_ct = setMeta loading_meta grey_slice"

text \<open>The grey image after a call of \<open>getDataRange()\<close>: it holds its range in the cache.\<close>

definition grey_cached :: "(plain_geometry, string, string, int) image" where
  "grey_cached = snd (getDataRange plain_capabilities grey_store grey_image)"

text \<open>The grey image after a client has set the RSI \<open>(2, 1)\<close> on it.\<close>

definition grey_rescaled :: "(plain_geometry, string, string, int) image" where
  "grey_rescaled =
     snd (setRescaleSlopeAndIntercept plain_capabilities (RsiObject (RSI 2 1)) None grey_image)"

text \<open>A grey image of two columns and two rows whose four samples are all 7.\<close>

definition flat_store :: heap where
  "flat_store = [[7, 7, 7, 7]]"

definition flat_image :: "(plain_geometry, string, string, int) image" where
  "flat_image = Image plain_capabilities flat_store (plain_dims 2 2 1, [0]) 0 [Some ''uid0'']"

text \<open>An image whose buffer holds two samples for its one voxel.\<close>

definition two_component_image :: "(plain_geometry, string, string, int) image" where
  "two_component_image = Image plain_capabilities [[1, 2]] (plain_dims 1 1 1, [0]) 0 []"

section \<open>Relations used in the proofs\<close>

text \<open>
  The identity flag of an image is sound when the constant RSI is an RSI object and is
  the identity whenever the flag \<open>isIdentityRSI\<close> is set.
\<close>

definition identity_flag_sound :: "('g, 'u, 'mv, 'w) image \<Rightarrow> bool" where
  "identity_flag_sound img \<longleftrightarrow>
     is_rsi_object (rsi img) \<and> (isIdentityRSI img \<longrightarrow> rsi img = RsiObject (RSI 1 0))"

text \<open>
  Two pulls have the same outcome when both emit the same value, both are done, or both
  raise the same error (the index that a done object carries is not compared).
\<close>

definition same_outcome :: "('v, 'i) pulled \<Rightarrow> ('v, 'j) pulled \<Rightarrow> bool" where
  "same_outcome p q =
     (case (p, q) of
        (Value v, Value w) \<Rightarrow> v = w
      | (Done i, Done j) \<Rightarrow> True
      | (Throws e, Throws e') \<Rightarrow> e = e'
      | _ \<Rightarrow> False)"

text \<open>
  A counted range follows a simple range when it stands at the same offset with the same
  stride, its inclusive bound is the last offset below the exclusive bound of the simple
  range, it walks forwards, and the jump after each count is zero.
\<close>

definition counted_matches_simple :: "simpleRange_state \<Rightarrow> range_state \<Rightarrow> bool" where
  "counted_matches_simple s t \<longleftrightarrow>
     rg_nextIndex t = sr_nextIndex s \<and> rg_end t = sr_end s - 1 \<and>
     rg_increment t = sr_increment s \<and> rg_finalCountIncrement t = 0 \<and> \<not> rg_reverse1 t"

text \<open>
  The cursors of an interleaved \<open>range3d\<close> over a block whose length is a multiple of 3:
  the distance to the end stays a multiple of 3 and the three cursors are adjacent.
\<close>

definition r3_inv :: "range3d_state \<Rightarrow> bool" where
  "r3_inv s \<longleftrightarrow> (r3_end s - r3_nextIndex s) mod 3 = 0 \<and> r3_increment s mod 3 = 0 \<and>
      r3_nextIndex1 s = of_int (r3_nextIndex s) + 1 \<and> r3_nextIndex2 s = of_int (r3_nextIndex s) + 2"

section \<open>Properties of the traversal primitives\<close>

lemma pull_n_stuck: "pull s = (d, [], s) \<Longrightarrow> pull_n pull n s = (d, [], s)"
  by (induction n) simp_all

lemma simpleRange_done_stuck:
  "is_done (fst (simpleRange_next acc s)) \<Longrightarrow> simpleRange_next acc s = (Done (sr_end s), [], s)"
  by (simp add: simpleRange_next_def split: if_splits)

lemma range_done_stuck:
  "is_done (fst (range_next acc s)) \<Longrightarrow> range_next acc s = (Done (rg_end s), [], s)"
  by (simp add: range_next_def Let_def split: if_splits)

lemma rangeRegion_done_stuck:
  "is_done (fst (rangeRegion_next acc s)) \<Longrightarrow> rangeRegion_next acc s = (Done (rr_end s), [], s)"
  by (simp add: rangeRegion_next_def Let_def split: if_splits)

lemma rangeRegions_done_stuck:
  "is_done (fst (rangeRegions_next acc s)) \<Longrightarrow> rangeRegions_next acc s = (Done (rs_end s), [], s)"
  by (simp add: rangeRegions_next_def Let_def split: if_splits prod.splits)

lemma range3d_done_stuck:
  "is_done (fst (range3d_next acc s)) \<Longrightarrow> range3d_next acc s = (Done [r3_end s], [], s)"
  by (simp add: range3d_next_def split: if_splits)

lemma simpleRange_reads: "o' \<in> set (fst (snd (simpleRange_next acc s))) \<Longrightarrow> o' < sr_end s"
  by (simp add: simpleRange_next_def split: if_splits)

lemma rangeRegion_reads: "o' \<in> set (fst (snd (rangeRegion_next acc s))) \<Longrightarrow> o' < rr_end s"
  by (simp add: rangeRegion_next_def Let_def split: if_splits)

lemma rangeRegions_reads: "o' \<in> set (fst (snd (rangeRegions_next acc s))) \<Longrightarrow> o' < rs_end s"
  by (simp add: rangeRegions_next_def Let_def split: if_splits prod.splits)

lemma range_reads: "o' \<in> set (fst (snd (range_next acc s))) \<Longrightarrow>
   (if rg_reverse1 s then rg_start s \<le> o' else o' \<le> rg_end s)"
  by (simp add: range_next_def testIndex_def Let_def split: if_splits)

lemma simpleRange_empty: "simpleRange_next acc (simpleRange e e inc) = (Done e, [], simpleRange e e inc)"
  by (simp add: simpleRange_next_def simpleRange_def)

lemma rangeRegion_empty: "rangeRegion_next acc (rangeRegion e e inc rsz roff) = (Done e, [], rangeRegion e e inc rsz roff)"
  by (simp add: rangeRegion_next_def rangeRegion_def)

lemma rangeRegions_empty: "rangeRegions_next acc (rangeRegions e e inc regs) = (Done e, [], rangeRegions e e inc regs)"
  by (simp add: rangeRegions_next_def rangeRegions_def)

lemma range3d_empty: "range3d_next acc (range3d e e inc pl) = (Done [e], [], range3d e e inc pl)"
  by (simp add: range3d_next_def range3d_def Let_def)

lemma range_start_eq_end:
  "fst (range_next acc (range_it e e inc cm ci None None)) = Value (acc e)"
  by (simp add: range_next_def range_it_def testIndex_def Let_def)

lemma range_test_exact:
  "fst (range_next acc s) =
     (if (if rg_reverse1 s then rg_start s \<le> rg_nextIndex s else rg_nextIndex s \<le> rg_end s)
      then Value (acc (rg_nextIndex s)) else Done (rg_end s)) \<and>
   fst (snd (range_next acc s)) =
     (if (if rg_reverse1 s then rg_start s \<le> rg_nextIndex s else rg_nextIndex s \<le> rg_end s)
      then [rg_nextIndex s] else [])"
  by (simp add: range_next_def testIndex_def Let_def)

lemma range_count_reversed_first:
  "fst (range_next acc (range_it start e inc cm ci None (Some True))) =
     (if start + (cm - 1) * inc \<le> e then Value (acc (start + (cm - 1) * inc)) else Done e)"
  by (simp add: range_next_def range_it_def testIndex_def Let_def)

lemma range_both_reversed_first:
  "fst (range_next acc (range_it start e inc cm ci (Some True) (Some True))) =
     (if start \<le> e - (cm - 1) * inc then Value (acc (e - (cm - 1) * inc)) else Done e)"
  by (simp add: range_next_def range_it_def testIndex_def Let_def)

lemma range_reversed_start_eq_end:
  "fst (range_next acc (range_it e e inc cm ci (Some True) None)) = Value (acc e)"
  by (simp add: range_next_def range_it_def testIndex_def Let_def)

lemma range_walk:
  assumes "rg_finalCountIncrement s = 0"
    and "if rg_reverse1 s then rg_increment s \<le> 0 else 0 \<le> rg_increment s"
  shows "fst (pull_n (range_next acc) n s) =
           (if testIndex s (rg_nextIndex s + int n * rg_increment s)
            then Value (acc (rg_nextIndex s + int n * rg_increment s)) else Done (rg_end s))
         \<and> fst (snd (pull_n (range_next acc) n s)) =
           (if testIndex s (rg_nextIndex s + int n * rg_increment s)
            then [rg_nextIndex s + int n * rg_increment s] else [])"
  using assms
proof (induction n arbitrary: s)
  case 0
  then show ?case by (simp add: range_next_def Let_def)
next
  case (Suc n)
  let ?s1 = "snd (snd (range_next acc s))"
  show ?case
  proof (cases "testIndex s (rg_nextIndex s)")
    case True
    have s1: "rg_nextIndex ?s1 = rg_nextIndex s + rg_increment s"
      "rg_increment ?s1 = rg_increment s" "rg_finalCountIncrement ?s1 = 0"
      "rg_reverse1 ?s1 = rg_reverse1 s" "rg_start ?s1 = rg_start s" "rg_end ?s1 = rg_end s"
      using True Suc.prems(1) by (simp_all add: range_next_def Let_def)
    have t: "testIndex ?s1 i = testIndex s i" for i
      using s1 by (simp add: testIndex_def)
    have "if rg_reverse1 ?s1 then rg_increment ?s1 \<le> 0 else 0 \<le> rg_increment ?s1"
      using Suc.prems(2) s1 by simp
    from Suc.IH[OF s1(3) this] show ?thesis
      by (simp add: s1 t algebra_simps)
  next
    case False
    then have stuck: "range_next acc s = (Done (rg_end s), [], s)"
      by (simp add: range_next_def)
    have "\<not> testIndex s (rg_nextIndex s + int (Suc n) * rg_increment s)"
    proof (cases "rg_reverse1 s")
      case True
      with Suc.prems(2) have "rg_increment s \<le> 0" by simp
      then have "int (Suc n) * rg_increment s \<le> 0" by (simp add: mult_nonneg_nonpos)
      with False True show ?thesis by (simp add: testIndex_def)
    next
      case False': False
      with Suc.prems(2) have "0 \<le> rg_increment s" by simp
      then have "0 \<le> int (Suc n) * rg_increment s" by simp
      with False False' show ?thesis by (simp add: testIndex_def)
    qed
    with pull_n_stuck[where pull = "range_next acc" and s = s and n = n, OF stuck] stuck
    show ?thesis by simp
  qed
qed

lemma range_forward_walk:
  assumes "0 \<le> inc"
  shows "fst (pull_n (range_next acc) n (range_it start e inc cm (cm * inc) None None)) =
           (if start + int n * inc \<le> e then Value (acc (start + int n * inc)) else Done e)
         \<and> fst (snd (pull_n (range_next acc) n (range_it start e inc cm (cm * inc) None None))) =
           (if start + int n * inc \<le> e then [start + int n * inc] else [])"
  using range_walk[of "range_it start e inc cm (cm * inc) None None" acc n] assms
  by (simp add: range_it_def testIndex_def)

lemma range_reversed_walk:
  assumes "0 \<le> inc"
  shows "fst (pull_n (range_next acc) n (range_it start e inc cm (cm * inc) (Some True) None)) =
           (if start \<le> e - int n * inc then Value (acc (e - int n * inc)) else Done e)
         \<and> fst (snd (pull_n (range_next acc) n (range_it start e inc cm (cm * inc) (Some True) None))) =
           (if start \<le> e - int n * inc then [e - int n * inc] else [])"
  using range_walk[of "range_it start e inc cm (cm * inc) (Some True) None" acc n] assms
  by (simp add: range_it_def testIndex_def)


lemma simpleRange_test_exact:
  "fst (simpleRange_next acc s) =
     (if sr_nextIndex s < sr_end s then Value (acc (sr_nextIndex s)) else Done (sr_end s))"
  by (simp add: simpleRange_next_def)

lemma rangeRegion_test_exact:
  "fst (rangeRegion_next acc s) =
     (if rr_nextIndex s < rr_end s then Value (acc (rr_nextIndex s)) else Done (rr_end s))"
  by (simp add: rangeRegion_next_def Let_def)

lemma rangeRegions_test_exact:
  "is_done (fst (rangeRegions_next acc s)) \<longleftrightarrow> rs_end s \<le> rs_nextIndex s"
  by (simp add: rangeRegions_next_def Let_def split: prod.splits)

lemma range3d_test_exact:
  "is_done (fst (range3d_next acc s)) \<longleftrightarrow> r3_end s \<le> r3_nextIndex s"
  by (simp add: range3d_next_def)

lemma r3_inv_init: "(e - b) mod 3 = 0 \<Longrightarrow> r3_inv (range3d b e inc (Some False))"
  by (simp add: r3_inv_def range3d_def Let_def split: option.splits)

lemma r3_inv_step: "r3_inv s \<Longrightarrow> r3_inv (snd (snd (range3d_next acc s)))"
  apply (simp add: r3_inv_def range3d_next_def)
  apply (intro impI conjI)
  apply (metis (no_types, opaque_lifting) diff_diff_eq2 diff_add_eq mod_diff_eq mod_0 diff_zero)
  done

lemma r3_inv_reads:
  assumes "r3_inv s" and "q \<in> set (fst (snd (range3d_next acc s)))"
  shows "q < of_int (r3_end s)"
proof (cases "r3_nextIndex s < r3_end s")
  case False
  with assms(2) show ?thesis by (simp add: range3d_next_def)
next
  case True
  from assms(1) have m: "(r3_end s - r3_nextIndex s) mod 3 = 0"
    and n1: "r3_nextIndex1 s = of_int (r3_nextIndex s) + 1"
    and n2: "r3_nextIndex2 s = of_int (r3_nextIndex s) + 2"
    by (simp_all add: r3_inv_def)
  from True m have "r3_nextIndex s + 3 \<le> r3_end s" by presburger
  then have "(of_int (r3_nextIndex s + 3) :: rat) \<le> of_int (r3_end s)"
    by (simp only: of_int_le_iff)
  then have b: "(of_int (r3_nextIndex s) :: rat) + 3 \<le> of_int (r3_end s)" by simp
  from assms(2) True have "q = of_int (r3_nextIndex s) \<or> q = r3_nextIndex1 s \<or> q = r3_nextIndex2 s"
    by (simp add: range3d_next_def)
  with n1 n2 b show ?thesis by auto
qed


lemma pull_n_reads_inv:
  assumes "\<And>s. I s \<Longrightarrow> I (snd (snd (pull s)))" and "I s"
  shows "\<exists>s'. I s' \<and> pull_n pull n s = pull s'"
  using assms(2)
proof (induction n arbitrary: s)
  case 0
  then show ?case by auto
next
  case (Suc n)
  from assms(1)[OF Suc.prems] have "I (snd (snd (pull s)))" .
  from Suc.IH[OF this] show ?case by simp
qed

lemma r3_interleaved_reads:
  assumes "(e - b) mod 3 = 0"
    and "q \<in> set (fst (snd (pull_n (range3d_next acc) n (range3d b e inc (Some False)))))"
  shows "q < of_int e"
proof -
  have i0: "r3_inv (range3d b e inc (Some False))" using assms(1) by (rule r3_inv_init)
  have e0: "r3_end (range3d b e inc (Some False)) = e" by (simp add: range3d_def Let_def)
  define I where "I s \<longleftrightarrow> r3_inv s \<and> r3_end s = e" for s
  have keep: "r3_end (snd (snd (range3d_next acc s))) = r3_end s" for s
    by (simp add: range3d_next_def)
  have step: "\<And>s. I s \<Longrightarrow> I (snd (snd (range3d_next acc s)))"
    unfolding I_def using r3_inv_step keep by metis
  from i0 e0 have "I (range3d b e inc (Some False))" by (simp add: I_def)
  from pull_n_reads_inv[of I "range3d_next acc", OF step this]
  obtain s' where "I s'" and eq: "pull_n (range3d_next acc) n (range3d b e inc (Some False)) = range3d_next acc s'"
    by blast
  then have "r3_inv s'" "r3_end s' = e" by (simp_all add: I_def)
  with r3_inv_reads[of s' q acc] assms(2) eq show ?thesis by simp
qed

lemma loop_sim_half:
  assumes step: "\<And>s t. R s t \<Longrightarrow>
     same_outcome (fst (f s)) (fst (g t)) \<and> R (snd (snd (f s))) (snd (snd (g t)))"
    and run: "getIteratorValues_loop f s0 vs0 = Some r0"
    and rel: "R s0 t0"
  shows "getIteratorValues_loop g t0 vs0 = Some r0"
proof -
  have "f' = f \<longrightarrow> (\<forall>t. R s t \<longrightarrow> getIteratorValues_loop g t vs = Some r)"
    if "getIteratorValues_loop f' s vs = Some r" for f' s vs r
  proof (rule getIteratorValues_loop.raw_induct
      [where P = "\<lambda>f' s vs r. f' = f \<longrightarrow> (\<forall>t. R s t \<longrightarrow> getIteratorValues_loop g t vs = Some r)",
       OF _ that],
      goal_cases)
    case (1 loop pull s vs r)
    show ?case
    proof (intro impI allI)
      fix t
      assume pf: "pull = f" and Rst: "R s t"
      from step[OF Rst] have so: "same_outcome (fst (f s)) (fst (g t))"
        and R': "R (snd (snd (f s))) (snd (snd (g t)))" by simp_all
      obtain p rs s' where fs: "f s = (p, rs, s')" by (cases "f s") auto
      obtain q rt t' where gt: "g t = (q, rt, t')" by (cases "g t") auto
      show "getIteratorValues_loop g t vs = Some r"
      proof (cases p)
        case (Value v)
        with so fs gt have q: "q = Value v" by (cases q) (simp_all add: same_outcome_def)
        from 1(2) pf fs Value have "loop f s' (vs @ [v]) = Some r" by simp
        from 1(1)[OF this] R' fs gt
        have "getIteratorValues_loop g t' (vs @ [v]) = Some r" by simp
        with gt q show ?thesis by (subst getIteratorValues_loop.simps) simp
      next
        case (Done i)
        with so fs gt obtain j where q: "q = Done j" by (cases q) (simp_all add: same_outcome_def)
        from 1(2) pf fs Done have "r = Inr vs" by simp
        with gt q show ?thesis by (subst getIteratorValues_loop.simps) simp
      next
        case (Throws e)
        with so fs gt have q: "q = Throws e" by (cases q) (simp_all add: same_outcome_def)
        from 1(2) pf fs Throws have "r = Inl e" by simp
        with gt q show ?thesis by (subst getIteratorValues_loop.simps) simp
      qed
    qed
  qed
  from this[OF run] rel show ?thesis by simp
qed

lemma same_outcome_sym: "same_outcome p q \<Longrightarrow> same_outcome q p"
  by (cases p; cases q) (simp_all add: same_outcome_def)

lemma loop_sim:
  assumes step: "\<And>s t. R s t \<Longrightarrow>
     same_outcome (fst (f s)) (fst (g t)) \<and> R (snd (snd (f s))) (snd (snd (g t)))"
    and rel: "R s0 t0"
  shows "getIteratorValues_loop f s0 vs0 = getIteratorValues_loop g t0 vs0"
proof (cases "getIteratorValues_loop f s0 vs0")
  case (Some r)
  from loop_sim_half[of R f g, OF step Some rel] Some show ?thesis by simp
next
  case None
  show ?thesis
  proof (cases "getIteratorValues_loop g t0 vs0")
    case None': None
    with None show ?thesis by simp
  next
    case (Some r)
    have step': "\<And>t s. (\<lambda>t s. R s t) t s \<Longrightarrow>
       same_outcome (fst (g t)) (fst (f s)) \<and> (\<lambda>t s. R s t) (snd (snd (g t))) (snd (snd (f s)))"
      using step same_outcome_sym by blast
    from loop_sim_half[of "\<lambda>t s. R s t" g f, OF step' Some] rel
    have "getIteratorValues_loop f s0 vs0 = Some r" by simp
    with None show ?thesis by simp
  qed
qed

lemma counted_matches_init:
  "counted_matches_simple (simpleRange start e (Some inc))
     (range_it start (e - 1) inc countMax (countMax * inc) None None)"
  by (simp add: counted_matches_simple_def simpleRange_def range_it_def Let_def)

lemma counted_matches_step:
  "counted_matches_simple s t \<Longrightarrow>
   same_outcome (fst (simpleRange_next acc s)) (fst (range_next acc t)) \<and>
   fst (snd (simpleRange_next acc s)) = fst (snd (range_next acc t)) \<and>
   counted_matches_simple (snd (snd (simpleRange_next acc s))) (snd (snd (range_next acc t)))"
  by (auto simp add: counted_matches_simple_def simpleRange_next_def range_next_def testIndex_def
      Let_def same_outcome_def)

lemma counted_matches_pull_n:
  "counted_matches_simple s t \<Longrightarrow>
   same_outcome (fst (pull_n (simpleRange_next acc) n s)) (fst (pull_n (range_next acc) n t)) \<and>
   fst (snd (pull_n (simpleRange_next acc) n s)) = fst (snd (pull_n (range_next acc) n t))"
proof (induction n arbitrary: s t)
  case 0
  then show ?case using counted_matches_step[of s t acc] by simp
next
  case (Suc n)
  from counted_matches_step[OF Suc.prems, of acc]
  have "counted_matches_simple (snd (snd (simpleRange_next acc s))) (snd (snd (range_next acc t)))"
    by simp
  from Suc.IH[OF this] show ?case by simp
qed

lemma same_outcome_emitted: "same_outcome p q \<Longrightarrow> emitted p = emitted q \<and> is_done p = is_done q"
  by (cases p; cases q) (simp_all add: same_outcome_def)

text \<open>
  Claim C2, as the code has it. In \<open>simpleRange\<close>, \<open>rangeRegion\<close> and \<open>rangeRegions\<close>
  the end bound is exclusive: a pull emits exactly when the cursor is below \<open>end\<close> (in
  \<open>rangeRegions\<close> it emits or raises there), every offset passed to the accessor is
  below \<open>end\<close>, and \<open>start = end\<close> gives an iterator whose first pull is done.

  The counted range \<open>range\<close> has an inclusive bound in both directions. A pull emits the
  value at the cursor, with one call of the accessor, exactly when the cursor passes the
  test \<open>i <= end\<close> (\<open>i >= start\<close> when \<open>reverse1\<close> is set), and is done without a call
  otherwise; so every offset it reads is at most \<open>end\<close> (at least \<open>start\<close>). With
  \<open>start = end\<close> and \<open>reverse2\<close> not set its first pull emits the value at \<open>end\<close>,
  with \<open>reverse1\<close> set or not; with \<open>reverse2\<close> set the first cursor lies
  \<open>countMax - 1\<close> strides inside the range (at \<open>start + (countMax - 1) * increment\<close>,
  or at \<open>end - (countMax - 1) * increment\<close> when \<open>reverse1\<close> is set too), and the first
  pull emits there under the same test. With
  \<open>reverse2\<close> not set, a stride that is not negative and the contiguous
  \<open>countIncrement\<close>, the pull number \<open>n\<close> emits the value at \<open>start + n * increment\<close>
  as long as that offset is at most \<open>end\<close>, the offset \<open>end\<close> included; with
  \<open>reverse1\<close> set it emits the value at \<open>end - n * increment\<close> as long as that offset
  is at least \<open>start\<close>, the offset \<open>start\<close> included.

  \<open>range3d\<close> emits exactly while its first cursor is below \<open>end\<close>, reads its first
  component there, is done at once when \<open>start = end\<close>, and in interleaved mode over a
  block whose length is a multiple of 3 reads all three components below \<open>end\<close> at
  every pull. For all five, a pull that reports done calls the accessor on nothing and
  leaves the state as it was, so every later pull (the pull number \<open>m\<close>, for every \<open>m\<close>)
  reports done again without a call.
\<close>

theorem primitives_bound_and_done:
  fixes acc :: "int \<Rightarrow> 'v" and accq :: "rat \<Rightarrow> 'w"
  shows
  "(\<forall>k \<in> set (fst (snd (simpleRange_next acc sr))). k < sr_end sr) \<and>
   (\<forall>k \<in> set (fst (snd (rangeRegion_next acc rr))). k < rr_end rr) \<and>
   (\<forall>k \<in> set (fst (snd (rangeRegions_next acc rs))). k < rs_end rs) \<and>
   (\<forall>k \<in> set (fst (snd (range_next acc rg))).
       if rg_reverse1 rg then rg_start rg \<le> k else k \<le> rg_end rg) \<and>
   (\<forall>v. fst (range3d_next accq rq) = Value v \<longrightarrow> r3_nextIndex rq < r3_end rq \<and>
         hd (fst (snd (range3d_next accq rq))) = of_int (r3_nextIndex rq)) \<and>
   ((ee - bb) mod 3 = 0 \<longrightarrow>
      (\<forall>q \<in> set (fst (snd (pull_n (range3d_next accq) n (range3d bb ee incq (Some False))))).
          q < of_int ee)) \<and>
   simpleRange_next acc (simpleRange e e inc) = (Done e, [], simpleRange e e inc) \<and>
   rangeRegion_next acc (rangeRegion e e ii rsz roff) = (Done e, [], rangeRegion e e ii rsz roff) \<and>
   rangeRegions_next acc (rangeRegions e e ii regs) = (Done e, [], rangeRegions e e ii regs) \<and>
   range3d_next accq (range3d e e inc pl) = (Done [e], [], range3d e e inc pl) \<and>
   fst (range_next acc (range_it e e ii cm ci None None)) = Value (acc e) \<and>
   (is_done (fst (simpleRange_next acc sr)) \<longrightarrow>
      pull_n (simpleRange_next acc) m sr = (Done (sr_end sr), [], sr)) \<and>
   (is_done (fst (range_next acc rg)) \<longrightarrow>
      pull_n (range_next acc) m rg = (Done (rg_end rg), [], rg)) \<and>
   (is_done (fst (rangeRegion_next acc rr)) \<longrightarrow>
      pull_n (rangeRegion_next acc) m rr = (Done (rr_end rr), [], rr)) \<and>
   (is_done (fst (rangeRegions_next acc rs)) \<longrightarrow>
      pull_n (rangeRegions_next acc) m rs = (Done (rs_end rs), [], rs)) \<and>
   (is_done (fst (range3d_next accq rq)) \<longrightarrow>
      pull_n (range3d_next accq) m rq = (Done [r3_end rq], [], rq)) \<and>
   fst (simpleRange_next acc sr) =
     (if sr_nextIndex sr < sr_end sr then Value (acc (sr_nextIndex sr)) else Done (sr_end sr)) \<and>
   fst (rangeRegion_next acc rr) =
     (if rr_nextIndex rr < rr_end rr then Value (acc (rr_nextIndex rr)) else Done (rr_end rr)) \<and>
   (is_done (fst (rangeRegions_next acc rs)) \<longleftrightarrow> rs_end rs \<le> rs_nextIndex rs) \<and>
   (is_done (fst (range3d_next accq rq)) \<longleftrightarrow> r3_end rq \<le> r3_nextIndex rq) \<and>
   fst (range_next acc rg) =
     (if (if rg_reverse1 rg then rg_start rg \<le> rg_nextIndex rg else rg_nextIndex rg \<le> rg_end rg)
      then Value (acc (rg_nextIndex rg)) else Done (rg_end rg)) \<and>
   fst (snd (range_next acc rg)) =
     (if (if rg_reverse1 rg then rg_start rg \<le> rg_nextIndex rg else rg_nextIndex rg \<le> rg_end rg)
      then [rg_nextIndex rg] else []) \<and>
   fst (range_next acc (range_it e e ii cm ci (Some True) None)) = Value (acc e) \<and>
   fst (range_next acc (range_it ws we wi wc ci None (Some True))) =
     (if ws + (wc - 1) * wi \<le> we then Value (acc (ws + (wc - 1) * wi)) else Done we) \<and>
   fst (range_next acc (range_it ws we wi wc ci (Some True) (Some True))) =
     (if ws \<le> we - (wc - 1) * wi then Value (acc (we - (wc - 1) * wi)) else Done we) \<and>
   (0 \<le> wi \<longrightarrow>
      fst (pull_n (range_next acc) wn (range_it ws we wi wc (wc * wi) None None)) =
        (if ws + int wn * wi \<le> we then Value (acc (ws + int wn * wi)) else Done we) \<and>
      fst (snd (pull_n (range_next acc) wn (range_it ws we wi wc (wc * wi) None None))) =
        (if ws + int wn * wi \<le> we then [ws + int wn * wi] else []) \<and>
      fst (pull_n (range_next acc) wn (range_it ws we wi wc (wc * wi) (Some True) None)) =
        (if ws \<le> we - int wn * wi then Value (acc (we - int wn * wi)) else Done we) \<and>
      fst (snd (pull_n (range_next acc) wn (range_it ws we wi wc (wc * wi) (Some True) None))) =
        (if ws \<le> we - int wn * wi then [we - int wn * wi] else []))"
proof (intro conjI)
  show "\<forall>k \<in> set (fst (snd (simpleRange_next acc sr))). k < sr_end sr"
    using simpleRange_reads by blast
  show "\<forall>k \<in> set (fst (snd (rangeRegion_next acc rr))). k < rr_end rr"
    using rangeRegion_reads by blast
  show "\<forall>k \<in> set (fst (snd (rangeRegions_next acc rs))). k < rs_end rs"
    using rangeRegions_reads by blast
  show "\<forall>k \<in> set (fst (snd (range_next acc rg))).
       if rg_reverse1 rg then rg_start rg \<le> k else k \<le> rg_end rg"
    using range_reads by blast
  show "\<forall>v. fst (range3d_next accq rq) = Value v \<longrightarrow> r3_nextIndex rq < r3_end rq \<and>
         hd (fst (snd (range3d_next accq rq))) = of_int (r3_nextIndex rq)"
    by (simp add: range3d_next_def)
  show "(ee - bb) mod 3 = 0 \<longrightarrow>
      (\<forall>q \<in> set (fst (snd (pull_n (range3d_next accq) n (range3d bb ee incq (Some False))))).
          q < of_int ee)"
  proof (intro impI ballI)
    fix q
    assume "(ee - bb) mod 3 = 0"
      and "q \<in> set (fst (snd (pull_n (range3d_next accq) n (range3d bb ee incq (Some False)))))"
    then show "q < of_int ee" by (rule r3_interleaved_reads)
  qed
  show "simpleRange_next acc (simpleRange e e inc) = (Done e, [], simpleRange e e inc)"
    by (rule simpleRange_empty)
  show "rangeRegion_next acc (rangeRegion e e ii rsz roff) = (Done e, [], rangeRegion e e ii rsz roff)"
    by (rule rangeRegion_empty)
  show "rangeRegions_next acc (rangeRegions e e ii regs) = (Done e, [], rangeRegions e e ii regs)"
    by (rule rangeRegions_empty)
  show "range3d_next accq (range3d e e inc pl) = (Done [e], [], range3d e e inc pl)"
    by (rule range3d_empty)
  show "fst (range_next acc (range_it e e ii cm ci None None)) = Value (acc e)"
    by (rule range_start_eq_end)
  show "is_done (fst (simpleRange_next acc sr)) \<longrightarrow>
      pull_n (simpleRange_next acc) m sr = (Done (sr_end sr), [], sr)"
    using simpleRange_done_stuck pull_n_stuck by metis
  show "is_done (fst (range_next acc rg)) \<longrightarrow>
      pull_n (range_next acc) m rg = (Done (rg_end rg), [], rg)"
    using range_done_stuck pull_n_stuck by metis
  show "is_done (fst (rangeRegion_next acc rr)) \<longrightarrow>
      pull_n (rangeRegion_next acc) m rr = (Done (rr_end rr), [], rr)"
    using rangeRegion_done_stuck pull_n_stuck by metis
  show "is_done (fst (rangeRegions_next acc rs)) \<longrightarrow>
      pull_n (rangeRegions_next acc) m rs = (Done (rs_end rs), [], rs)"
    using rangeRegions_done_stuck pull_n_stuck by metis
  show "is_done (fst (range3d_next accq rq)) \<longrightarrow>
      pull_n (range3d_next accq) m rq = (Done [r3_end rq], [], rq)"
    using range3d_done_stuck pull_n_stuck by metis
  show "fst (simpleRange_next acc sr) =
     (if sr_nextIndex sr < sr_end sr then Value (acc (sr_nextIndex sr)) else Done (sr_end sr))"
    by (rule simpleRange_test_exact)
  show "fst (rangeRegion_next acc rr) =
     (if rr_nextIndex rr < rr_end rr then Value (acc (rr_nextIndex rr)) else Done (rr_end rr))"
    by (rule rangeRegion_test_exact)
  show "is_done (fst (rangeRegions_next acc rs)) \<longleftrightarrow> rs_end rs \<le> rs_nextIndex rs"
    by (rule rangeRegions_test_exact)
  show "is_done (fst (range3d_next accq rq)) \<longleftrightarrow> r3_end rq \<le> r3_nextIndex rq"
    by (rule range3d_test_exact)
  show "fst (range_next acc rg) =
     (if (if rg_reverse1 rg then rg_start rg \<le> rg_nextIndex rg else rg_nextIndex rg \<le> rg_end rg)
      then Value (acc (rg_nextIndex rg)) else Done (rg_end rg))"
    using range_test_exact[of acc rg] by blast
  show "fst (snd (range_next acc rg)) =
     (if (if rg_reverse1 rg then rg_start rg \<le> rg_nextIndex rg else rg_nextIndex rg \<le> rg_end rg)
      then [rg_nextIndex rg] else [])"
    using range_test_exact[of acc rg] by blast
  show "fst (range_next acc (range_it e e ii cm ci (Some True) None)) = Value (acc e)"
    by (rule range_reversed_start_eq_end)
  show "fst (range_next acc (range_it ws we wi wc ci None (Some True))) =
     (if ws + (wc - 1) * wi \<le> we then Value (acc (ws + (wc - 1) * wi)) else Done we)"
    by (rule range_count_reversed_first)
  show "fst (range_next acc (range_it ws we wi wc ci (Some True) (Some True))) =
     (if ws \<le> we - (wc - 1) * wi then Value (acc (we - (wc - 1) * wi)) else Done we)"
    by (rule range_both_reversed_first)
  show "0 \<le> wi \<longrightarrow>
      fst (pull_n (range_next acc) wn (range_it ws we wi wc (wc * wi) None None)) =
        (if ws + int wn * wi \<le> we then Value (acc (ws + int wn * wi)) else Done we) \<and>
      fst (snd (pull_n (range_next acc) wn (range_it ws we wi wc (wc * wi) None None))) =
        (if ws + int wn * wi \<le> we then [ws + int wn * wi] else []) \<and>
      fst (pull_n (range_next acc) wn (range_it ws we wi wc (wc * wi) (Some True) None)) =
        (if ws \<le> we - int wn * wi then Value (acc (we - int wn * wi)) else Done we) \<and>
      fst (snd (pull_n (range_next acc) wn (range_it ws we wi wc (wc * wi) (Some True) None))) =
        (if ws \<le> we - int wn * wi then [we - int wn * wi] else [])"
    using range_forward_walk[of wi acc wn ws we wc] range_reversed_walk[of wi acc wn ws we wc]
    by blast
qed

theorem primitives_bound_and_done_witness:
  "fst (snd (simpleRange_next (\<lambda>i. i) (simpleRange 0 3 None))) = [0] \<and> (0::int) < 3
   \<and> fst (snd (rangeRegion_next (\<lambda>i. i) (rangeRegion 0 9 1 3 1))) = [0] \<and> (0::int) < 9
   \<and> fst (snd (rangeRegions_next (\<lambda>i. i) (rangeRegions 0 4 1 [(0, 2, 0), (0, 2, 0)]))) = [0]
   \<and> (0::int) < 4
   \<and> fst (snd (range_next (\<lambda>i. i) (range_it 3 3 1 2 2 None None))) = [3] \<and> (3::int) \<le> 3
   \<and> fst (range3d_next (\<lambda>q. q) (range3d 0 6 None None)) = Value (0, 1, 2)
   \<and> (6 - 0) mod 3 = (0::int)
   \<and> fst (snd (pull_n (range3d_next (\<lambda>q. q)) (Suc 0) (range3d 0 6 None (Some False)))) = [3, 4, 5]
   \<and> is_done (fst (simpleRange_next (\<lambda>i. i) (simpleRange 3 3 None)))
   \<and> pull_n (simpleRange_next (\<lambda>i. i)) (Suc 0) (simpleRange 3 3 None)
       = (Done 3, [], simpleRange 3 3 None)
   \<and> is_done (fst (range_next (\<lambda>i. i) (range_it 3 2 1 2 2 None None)))
   \<and> pull_n (range_next (\<lambda>i. i)) (Suc 0) (range_it 3 2 1 2 2 None None)
       = (Done 2, [], range_it 3 2 1 2 2 None None)
   \<and> is_done (fst (rangeRegion_next (\<lambda>i. i) (rangeRegion 3 3 1 3 1)))
   \<and> pull_n (rangeRegion_next (\<lambda>i. i)) (Suc 0) (rangeRegion 3 3 1 3 1)
       = (Done 3, [], rangeRegion 3 3 1 3 1)
   \<and> is_done (fst (rangeRegions_next (\<lambda>i. i) (rangeRegions 3 3 1 [(0, 2, 0)])))
   \<and> pull_n (rangeRegions_next (\<lambda>i. i)) (Suc 0) (rangeRegions 3 3 1 [(0, 2, 0)])
       = (Done 3, [], rangeRegions 3 3 1 [(0, 2, 0)])
   \<and> is_done (fst (range3d_next (\<lambda>q. q) (range3d 3 3 None None)))
   \<and> pull_n (range3d_next (\<lambda>q. q)) (Suc 0) (range3d 3 3 None None)
       = (Done [3], [], range3d 3 3 None None)
   \<and> (0::int) \<le> 1
   \<and> fst (pull_n (range_next (\<lambda>i. i)) 5 (range_it 0 5 1 2 (2 * 1) None None)) = Value 5
   \<and> fst (pull_n (range_next (\<lambda>i. i)) 5 (range_it 0 5 1 2 (2 * 1) (Some True) None)) = Value 0
   \<and> fst (snd (pull_n (range_next (\<lambda>i. i)) 5 (range_it 0 5 1 2 (2 * 1) (Some True) None))) = [0]"
  using primitives_bound_and_done
    [where acc = "\<lambda>i::int. i" and accq = "\<lambda>q::rat. q" and m = "Suc 0"
       and sr = "simpleRange 0 3 None" and rg = "range_it 3 3 1 2 2 None None"
       and rr = "rangeRegion 0 9 1 3 1" and rs = "rangeRegions 0 4 1 [(0, 2, 0), (0, 2, 0)]"
       and rq = "range3d 0 6 None None"
       and ee = 6 and bb = 0 and n = "Suc 0" and incq = None
       and ws = 0 and we = 5 and wi = 1 and wc = 2 and wn = 5 and ci = 2]
    primitives_bound_and_done
    [where acc = "\<lambda>i::int. i" and accq = "\<lambda>q::rat. q" and m = "Suc 0"
       and sr = "simpleRange 3 3 None" and rg = "range_it 3 2 1 2 2 None None"
       and rr = "rangeRegion 3 3 1 3 1" and rs = "rangeRegions 3 3 1 [(0, 2, 0)]"
       and rq = "range3d 3 3 None None"
       and ee = 6 and bb = 0 and n = "Suc 0" and incq = None
       and ws = 0 and we = 5 and wi = 1 and wc = 2 and wn = 5 and ci = 2]
  by (simp add: simpleRange_next_def simpleRange_def rangeRegion_next_def rangeRegion_def
      rangeRegions_next_def rangeRegions_def range_next_def range_it_def testIndex_def
      range3d_next_def range3d_def)

text \<open>
  The claim C2 as stated fails on the counted range: with \<open>start = end = 5\<close> the first
  pull is not done, and it reads offset 5, which is \<open>end\<close>.
\<close>

theorem range_end_is_inclusive:
  "range_next (\<lambda>i. i) (range_it 5 5 1 1 1 None None)
     = (Value 5, [5], (range_it 5 5 1 1 1 None None)\<lparr> rg_nextIndex := 6 \<rparr>)"
  by (simp add: range_next_def range_it_def testIndex_def)

text \<open>
  Claim C3, as the code has it. The bound of the counted range is inclusive, so the
  counted range that reduces to \<open>simpleRange(accessor, start, end, increment)\<close> is the one
  with the bound \<open>end - 1\<close>: with both reversal flags off and the contiguous
  \<open>countIncrement = countMax * increment\<close> (for every \<open>countMax\<close>, \<open>end - start\<close> among
  them), every pull emits the same value or is done as the same pull of the simple
  range, and draining both gives the same list (or runs forever on both).
\<close>

theorem counted_range_reduces_to_simpleRange:
  "emitted (fst (pull_n (range_next acc) n (range_it start (e - 1) inc countMax (countMax * inc) None None)))
     = emitted (fst (pull_n (simpleRange_next acc) n (simpleRange start e (Some inc))))
   \<and> is_done (fst (pull_n (range_next acc) n (range_it start (e - 1) inc countMax (countMax * inc) None None)))
     = is_done (fst (pull_n (simpleRange_next acc) n (simpleRange start e (Some inc))))
   \<and> getIteratorValues (range_next acc) (range_it start (e - 1) inc countMax (countMax * inc) None None)
     = getIteratorValues (simpleRange_next acc) (simpleRange start e (Some inc))"
proof -
  note init = counted_matches_init[of start e inc countMax]
  from counted_matches_pull_n[OF init, of acc n] same_outcome_emitted
  have a: "emitted (fst (pull_n (simpleRange_next acc) n (simpleRange start e (Some inc))))
     = emitted (fst (pull_n (range_next acc) n (range_it start (e - 1) inc countMax (countMax * inc) None None)))"
    and b: "is_done (fst (pull_n (simpleRange_next acc) n (simpleRange start e (Some inc))))
     = is_done (fst (pull_n (range_next acc) n (range_it start (e - 1) inc countMax (countMax * inc) None None)))"
    by blast+
  have c: "getIteratorValues_loop (simpleRange_next acc) (simpleRange start e (Some inc)) []
     = getIteratorValues_loop (range_next acc) (range_it start (e - 1) inc countMax (countMax * inc) None None) []"
    by (rule loop_sim[of counted_matches_simple, OF _ init]) (use counted_matches_step in blast)
  from a b c show ?thesis by (simp add: getIteratorValues_def)
qed

text \<open>
  The claim C3 as stated fails: with the bound \<open>end\<close> itself the counted range also
  emits the value at \<open>end\<close>. Here \<open>start = 0\<close>, \<open>end = 1\<close>, \<open>increment = 1\<close>,
  \<open>countMax = end - start\<close> and \<open>countIncrement = countMax * increment\<close>.
\<close>

theorem counted_range_emits_one_more:
  "getIteratorValues (range_next (\<lambda>i. i)) (range_it 0 1 1 (1 - 0) ((1 - 0) * 1) (Some False) (Some False)) = Some (Inr [0, 1])
   \<and> getIteratorValues (simpleRange_next (\<lambda>i. i)) (simpleRange 0 1 (Some 1)) = Some (Inr [0])"
  by (simp add: getIteratorValues_def getIteratorValues_loop.simps range_next_def range_it_def testIndex_def
      simpleRange_next_def simpleRange_def)

section \<open>Properties of the RSI state\<close>

lemma setRSI_keeps_constant:
  "isConstantRSI img \<Longrightarrow> isConstantRSI (snd (setRescaleSlopeAndIntercept cap v off img))"
  by (simp add: setRescaleSlopeAndIntercept_def typeof_index_undefined_def Let_def
      split: rsi_value.splits)

lemma realloc_isConstantRSI:
  "isConstantRSI (snd (snd (realloc cap n (h, img)))) = isConstantRSI img"
  by (simp add: realloc_def Let_def heap_alloc_def split: option.splits sum.splits)

lemma grow_isConstantRSI:
  "isConstantRSI (snd (snd (appendSlice_grow cap (h, img)))) = isConstantRSI img"
  by (simp add: appendSlice_grow_def Let_def realloc_isConstantRSI split: option.splits)

lemma uids_presets_isConstantRSI:
  "isConstantRSI (snd (appendSlice_uids_presets cap r off img)) = isConstantRSI img"
  by (simp add: appendSlice_uids_presets_def Let_def split: option.splits prod.splits)

lemma setRSI_keeps_constant_eq:
  "setRescaleSlopeAndIntercept cap v off img = (e, img') \<Longrightarrow> isConstantRSI img \<Longrightarrow> isConstantRSI img'"
  using setRSI_keeps_constant[of img cap v off] by simp

lemma uids_presets_isConstantRSI_eq:
  "appendSlice_uids_presets cap r off img = (e, img') \<Longrightarrow> isConstantRSI img' = isConstantRSI img"
  using uids_presets_isConstantRSI[of cap r off img] by simp

lemma insert_keeps_constant:
  "isConstantRSI img \<Longrightarrow> isConstantRSI (snd (snd (appendSlice_insert cap r t sz (h, img))))"
  by (auto simp add: appendSlice_insert_def Let_def
      split: option.splits sum.splits prod.splits
      dest!: setRSI_keeps_constant_eq uids_presets_isConstantRSI_eq)

lemma appendSlice_keeps_constant:
  "isConstantRSI img \<Longrightarrow> isConstantRSI (snd (snd (appendSlice cap rhs t (h, img))))"
proof -
  assume c: "isConstantRSI img"
  obtain e h1 img1 where g: "appendSlice_grow cap (h, img) = (e, h1, img1)"
    by (cases "appendSlice_grow cap (h, img)") auto
  with grow_isConstantRSI[of cap h img] c have c1: "isConstantRSI img1" by simp
  show ?thesis
    using c c1 g
    by (simp add: appendSlice_def Let_def insert_keeps_constant split: option.splits)
qed


lemma constant_getRSI:
  "isConstantRSI img \<Longrightarrow> getRescaleSlopeAndIntercept cap img index = Inr (rsi img)"
  by (simp add: getRescaleSlopeAndIntercept_def)

lemma constant_rescaled:
  "isConstantRSI img \<Longrightarrow>
   getRescaledValueAtOffset cap h img k =
     (case getValueAtOffset h img k of
        Inl e \<Rightarrow> Inl e
      | Inr v \<Rightarrow> if isIdentityRSI img then Inr v else apply_value (rsi img) v)"
  by (simp add: getRescaledValueAtOffset_def constant_getRSI split: sum.splits)

lemma isID_iff: "isID r \<longleftrightarrow> r = RSI 1 0"
  by (cases r) (simp add: isID_def)

lemma setRSI_sound:
  "isConstantRSI img \<Longrightarrow> identity_flag_sound img \<Longrightarrow>
   identity_flag_sound (snd (setRescaleSlopeAndIntercept cap v off img))"
  by (auto simp add: setRescaleSlopeAndIntercept_def typeof_index_undefined_def Let_def
      identity_flag_sound_def isID_iff split: rsi_value.splits)

lemma setRSI_sound_eq:
  "setRescaleSlopeAndIntercept cap v off img = (e, img') \<Longrightarrow> isConstantRSI img \<Longrightarrow>
   identity_flag_sound img \<Longrightarrow> identity_flag_sound img'"
  using setRSI_sound[of img cap v off] by simp

lemma realloc_sound:
  "identity_flag_sound (snd (snd (realloc cap n (h, img)))) = identity_flag_sound img"
  by (simp add: realloc_def Let_def heap_alloc_def identity_flag_sound_def
      split: option.splits sum.splits)

lemma grow_sound:
  "identity_flag_sound (snd (snd (appendSlice_grow cap (h, img)))) = identity_flag_sound img"
  by (simp add: appendSlice_grow_def Let_def realloc_sound split: option.splits)

lemma uids_presets_sound_eq:
  "appendSlice_uids_presets cap r off img = (e, img') \<Longrightarrow>
   identity_flag_sound img' = identity_flag_sound img"
  by (auto simp add: appendSlice_uids_presets_def Let_def identity_flag_sound_def
      split: option.splits prod.splits)

lemma geometry_sound: "identity_flag_sound (img\<lparr>geometry := g\<rparr>) = identity_flag_sound img"
  by (simp add: identity_flag_sound_def)

lemma insert_sound:
  "isConstantRSI img \<Longrightarrow> identity_flag_sound img \<Longrightarrow>
   identity_flag_sound (snd (snd (appendSlice_insert cap r t sz (h, img))))"
  by (auto simp add: appendSlice_insert_def Let_def geometry_sound
      split: option.splits sum.splits prod.splits
      dest!: setRSI_sound_eq uids_presets_sound_eq)

lemma appendSlice_sound:
  "isConstantRSI img \<Longrightarrow> identity_flag_sound img \<Longrightarrow>
   identity_flag_sound (snd (snd (appendSlice cap rhs t (h, img))))"
proof -
  assume c: "isConstantRSI img" and f: "identity_flag_sound img"
  obtain e h1 img1 where g: "appendSlice_grow cap (h, img) = (e, h1, img1)"
    by (cases "appendSlice_grow cap (h, img)") auto
  with grow_isConstantRSI[of cap h img] c have c1: "isConstantRSI img1" by simp
  from g grow_sound[of cap h img] f have f1: "identity_flag_sound img1" by simp
  show ?thesis
    using c f c1 f1 g
    by (simp add: appendSlice_def Let_def insert_sound split: option.splits)
qed

lemma api_state_invariant:
  "api_state cap st \<Longrightarrow> isConstantRSI (snd st) \<and> identity_flag_sound (snd st)"
proof (induction rule: api_state.induct)
  case (constructed h geom buf uids)
  show ?case by (simp add: Image_def identity_flag_sound_def)
next
  case (set_rsi h img inRsi offset)
  then show ?case by (simp add: setRSI_keeps_constant setRSI_sound)
next
  case (appended h img rhs timeId)
  then show ?case by (simp add: appendSlice_keeps_constant appendSlice_sound)
next
  case (set_photometric h img interp)
  then show ?case by (simp add: setPhotometricInterpretation_def identity_flag_sound_def)
next
  case (set_planar h img config)
  then show ?case by (simp add: setPlanarConfiguration_def identity_flag_sound_def)
next
  case (set_meta h img m)
  then show ?case by (simp add: setMeta_def identity_flag_sound_def)
next
  case (store_written h img h')
  then show ?case by simp
qed

text \<open>
  Claim C10. An image built by the constructor is in constant-RSI mode, and the mode is
  kept by every call of \<open>setRescaleSlopeAndIntercept\<close> (with any argument, with or
  without an offset) and by every call of \<open>appendSlice\<close> (whatever it returns or
  raises): the test \<open>typeof index === 'undefined'\<close> that guards the switch to
  per-offset mode is always true. So every image that a client can reach is in
  constant mode, and in constant mode \<open>getRescaleSlopeAndIntercept\<close> returns the
  constant RSI for every index and \<open>getRescaledValueAtOffset\<close> applies it (or returns
  the raw value when the identity flag is set): neither takes the per-offset path.
\<close>

theorem constant_rsi_mode_is_invariant:
  "isConstantRSI (Image cap h geom buf uids)
   \<and> (isConstantRSI img \<longrightarrow>
        isConstantRSI (snd (setRescaleSlopeAndIntercept cap inRsi offset img)))
   \<and> (isConstantRSI img \<longrightarrow>
        isConstantRSI (snd (snd (appendSlice cap rhs timeId (h, img)))))
   \<and> (api_state cap (h, img) \<longrightarrow> isConstantRSI img)
   \<and> (isConstantRSI img \<longrightarrow>
        getRescaleSlopeAndIntercept cap img index = Inr (rsi img)
        \<and> getRescaledValueAtOffset cap h img k =
            (case getValueAtOffset h img k of
               Inl e \<Rightarrow> Inl e
             | Inr v \<Rightarrow> if isIdentityRSI img then Inr v else apply_value (rsi img) v))"
proof (intro conjI impI)
  show "isConstantRSI (Image cap h geom buf uids)" by (simp add: Image_def)
next
  assume "api_state cap (h, img)"
  from api_state_invariant[OF this] show "isConstantRSI img" by simp
qed (simp_all add: setRSI_keeps_constant appendSlice_keeps_constant constant_getRSI
      constant_rescaled)

theorem constant_rsi_mode_is_invariant_witness:
  "isConstantRSI grey_loading
   \<and> isConstantRSI (snd (setRescaleSlopeAndIntercept plain_capabilities (RsiObject (RSI 2 0))
                           (Some (Fin 0)) grey_loading))
   \<and> fst (appendSlice plain_capabilities (Some grey_slice_ct) None (grey_store, grey_loading)) = None
   \<and> isConstantRSI (snd (snd (appendSlice plain_capabilities (Some grey_slice_ct) None
                                 (grey_store, grey_loading))))
   \<and> api_state plain_capabilities (grey_store, grey_loading)
   \<and> getRescaleSlopeAndIntercept plain_capabilities grey_loading (Some [0, 0, 0])
        = Inr (RsiObject (RSI 1 0))"
proof -
  have s: "api_state plain_capabilities (grey_store, grey_loading)"
    unfolding grey_loading_def grey_image_def
    by (rule api_state.set_meta) (rule api_state.constructed)
  have ok: "fst (appendSlice plain_capabilities (Some grey_slice_ct) None (grey_store, grey_loading)) = None"
    by code_simp
  have r: "rsi grey_loading = RsiObject (RSI 1 0)" by code_simp
  note inst = constant_rsi_mode_is_invariant
    [where img = grey_loading and cap = plain_capabilities and h = grey_store
       and inRsi = "RsiObject (RSI 2 0)" and offset = "Some (Fin 0)"
       and rhs = "Some grey_slice_ct" and timeId = None and index = "Some [0, 0, 0]"
       and geom = "(plain_dims 2 2 1, [0])" and buf = 0 and uids = "[]" and k = 0]
  from inst s have c: "isConstantRSI grey_loading" by blast
  from inst c
  have i: "isConstantRSI
         (snd (setRescaleSlopeAndIntercept plain_capabilities (RsiObject (RSI 2 0))
                 (Some (Fin 0)) grey_loading))
       \<and> isConstantRSI (snd (snd (appendSlice plain_capabilities (Some grey_slice_ct) None
                                 (grey_store, grey_loading))))
       \<and> getRescaleSlopeAndIntercept plain_capabilities grey_loading (Some [0, 0, 0])
            = Inr (rsi grey_loading)"
    by blast
  from i c s ok r show ?thesis by (simp only: simp_thms)
qed

text \<open>
  Claim C5. For every image a client can reach whose constant RSI is the pair
  \<open>(s, b)\<close>, and for every offset, \<open>getRescaledValueAtOffset\<close> returns the value of
  \<open>getValueAtOffset\<close> times \<open>s\<close> plus \<open>b\<close> (it is undefined or raises where the raw
  read is undefined or raises); for the identity RSI it returns the raw value unchanged.
\<close>

theorem rescaled_value_constant_rsi:
  assumes "api_state cap (h, img)" and "rsi img = RsiObject (RSI s b)"
  shows "getRescaledValueAtOffset cap h img k =
           (case getValueAtOffset h img k of
              Inl e \<Rightarrow> Inl e
            | Inr None \<Rightarrow> Inr None
            | Inr (Some x) \<Rightarrow> Inr (Some (x * s + b)))
         \<and> (s = 1 \<and> b = 0 \<longrightarrow>
              getRescaledValueAtOffset cap h img k = getValueAtOffset h img k)"
proof -
  from api_state_invariant[OF assms(1)]
  have c: "isConstantRSI img" and f: "identity_flag_sound img" by simp_all
  from f assms(2) have id: "isIdentityRSI img \<Longrightarrow> s = 1 \<and> b = 0"
    by (simp add: identity_flag_sound_def)
  show ?thesis
    using id assms(2)
    by (auto simp add: constant_rescaled[OF c] apply_value_def apply_rsi_def
        split: sum.splits option.splits)
qed

theorem rescaled_value_constant_rsi_witness:
  "api_state plain_capabilities (grey_store, grey_rescaled)
   \<and> rsi grey_rescaled = RsiObject (RSI 2 1)
   \<and> getValueAtOffset grey_store grey_rescaled 1 = Inr (Some 11)
   \<and> getRescaledValueAtOffset plain_capabilities grey_store grey_rescaled 1 = Inr (Some (11 * 2 + 1))
   \<and> api_state plain_capabilities (grey_store, grey_image)
   \<and> rsi grey_image = RsiObject (RSI 1 0)
   \<and> getRescaledValueAtOffset plain_capabilities grey_store grey_image 1 = Inr (Some 11)"
proof -
  have s0: "api_state plain_capabilities (grey_store, grey_image)"
    unfolding grey_image_def by (rule api_state.constructed)
  have s1: "api_state plain_capabilities (grey_store, grey_rescaled)"
    unfolding grey_rescaled_def by (rule api_state.set_rsi) (rule s0)
  have r1: "rsi grey_rescaled = RsiObject (RSI 2 1)" by code_simp
  have r0: "rsi grey_image = RsiObject (RSI 1 0)" by code_simp
  have v1: "getValueAtOffset grey_store grey_rescaled 1 = Inr (Some 11)" by code_simp
  have v0: "getValueAtOffset grey_store grey_image 1 = Inr (Some 11)" by code_simp
  from rescaled_value_constant_rsi[OF s1 r1, of 1] v1
  have a: "getRescaledValueAtOffset plain_capabilities grey_store grey_rescaled 1 = Inr (Some (11 * 2 + 1))"
    by simp
  from rescaled_value_constant_rsi[OF s0 r0, of 1] v0
  have b: "getRescaledValueAtOffset plain_capabilities grey_store grey_image 1 = Inr (Some 11)"
    by simp
  from s0 s1 r0 r1 v1 a b show ?thesis by simp
qed

text \<open>
  Claim C4, evaluated on the code. The grey image has the constant RSI \<open>(1, 0)\<close>. A call
  with the different RSI \<open>(2, 0)\<close> and the offset 0 returns normally, replaces the
  constant RSI and leaves the image in constant mode: no per-offset sequence is
  allocated. The branch that would switch is guarded by \<open>typeof index\<close>, where the
  parameter is named \<open>offset\<close>.
\<close>

theorem setRescaleSlopeAndIntercept_never_switches:
  "\<not> rsiEquals plain_capabilities (RSI 1 0) (RSI 2 0)
   \<and> rsi grey_image = RsiObject (RSI 1 0) \<and> isConstantRSI grey_image
   \<and> setRescaleSlopeAndIntercept plain_capabilities (RsiObject (RSI 2 0)) (Some (Fin 0)) grey_image
       = (None, grey_image\<lparr> rsi := RsiObject (RSI 2 0), isIdentityRSI := False \<rparr>)
   \<and> isConstantRSI (grey_image\<lparr> rsi := RsiObject (RSI 2 0), isIdentityRSI := False \<rparr>)
   \<and> rsis (grey_image\<lparr> rsi := RsiObject (RSI 2 0), isIdentityRSI := False \<rparr>) = None"
  by code_simp

section \<open>Properties of the histogram\<close>

lemma rescaled_defined_raw:
  "getRescaledValueAtOffset cap h img k = Inr rv \<Longrightarrow> \<exists>v. getValueAtOffset h img k = Inr v"
  by (cases "getValueAtOffset h img k") (simp_all add: getRescaledValueAtOffset_def)

lemma histogram_scan_flat:
  assumes "\<forall>i \<in> set is. getRescaledValueAtOffset cap h img (int i) = Inr (Some v)"
    and "hs_rmin s = Some v" and "hs_rmax s = Some v"
  shows "\<exists>s'. histogram_scan cap h img is s = Inr s' \<and> hs_rmin s' = Some v \<and> hs_rmax s' = Some v
            \<and> hs_histo s' (Some v) = hs_histo s (Some v) + length is"
  using assms
proof (induction "is" arbitrary: s)
  case Nil
  then show ?case by simp
next
  case (Cons i "is")
  from Cons.prems(1) have rv: "getRescaledValueAtOffset cap h img (int i) = Inr (Some v)" by simp
  from rescaled_defined_raw[OF rv] obtain x where x: "getValueAtOffset h img (int i) = Inr x" by blast
  let ?s1 = "\<lparr> hs_min = (if js_lt x (hs_min s) then x else hs_min s),
                   hs_max = (if js_gt x (hs_max s) then x else hs_max s),
                   hs_rmin = (if js_lt (Some v) (hs_rmin s) then Some v else hs_rmin s),
                   hs_rmax = (if js_gt (Some v) (hs_rmax s) then Some v else hs_rmax s),
                   hs_histo = (hs_histo s)(Some v := hs_histo s (Some v) + 1) \<rparr>"
  have step: "histogram_scan cap h img (i # is) s = histogram_scan cap h img is ?s1"
    using rv x by simp
  have a: "hs_rmin ?s1 = Some v" "hs_rmax ?s1 = Some v"
    using Cons.prems(2,3) by (simp_all add: js_lt_def js_gt_def)
  from Cons.prems(1) have rest: "\<forall>i \<in> set is. getRescaledValueAtOffset cap h img (int i) = Inr (Some v)"
    by simp
  from Cons.IH[OF rest a] obtain s' where
    "histogram_scan cap h img is ?s1 = Inr s'" "hs_rmin s' = Some v" "hs_rmax s' = Some v"
    "hs_histo s' (Some v) = hs_histo ?s1 (Some v) + length is" by blast
  with step show ?case by simp
qed

lemma round_half_even_of_int: "round_half_even (of_int i) = i"
  by (simp add: round_half_even_def)

lemma ulp_exponent_up_stop:
  "\<bar>x\<bar> < 2 ^ (significand_bits + k) \<Longrightarrow> ulp_exponent_up x k = k"
  by (subst ulp_exponent_up.simps) simp

lemma ulp_below: "\<bar>x\<bar> < 2 ^ significand_bits \<Longrightarrow> \<exists>j. ulp x = 1 / 2 ^ j"
  by (auto simp add: ulp_def)

lemma ulp_at:
  assumes a: "\<bar>x\<bar> = 2 ^ significand_bits"
  shows "ulp x = 2"
proof -
  have "ulp_exponent_up x 0 = ulp_exponent_up x (Suc 0)"
    by (subst ulp_exponent_up.simps) (simp add: a)
  also have "\<dots> = Suc 0"
    by (rule ulp_exponent_up_stop) (simp add: a)
  finally show ?thesis using a by (simp add: ulp_def)
qed

lemma fp_round_integer:
  assumes "\<bar>z\<bar> \<le> 2 ^ significand_bits"
  shows "fp_round (of_int z) = of_int z"
proof (cases "\<bar>z\<bar> = 2 ^ significand_bits")
  case True
  then have "of_int \<bar>z\<bar> = (of_int (2 ^ significand_bits) :: rat)" by (simp only:)
  then have a: "\<bar>of_int z :: rat\<bar> = 2 ^ significand_bits" by simp
  have "even ((2::int) ^ significand_bits)" by (simp add: significand_bits_def)
  with True have "even \<bar>z\<bar>" by (simp only:)
  then have "even z" by simp
  then obtain w where w: "z = 2 * w" by (elim evenE)
  have "(of_int z :: rat) / 2 = of_int w" by (simp add: w)
  then have "round_half_even (of_int z / 2) = w" by (simp only: round_half_even_of_int)
  then show ?thesis using ulp_at[OF a] w by (simp add: fp_round_def)
next
  case False
  with assms have "\<bar>z\<bar> < 2 ^ significand_bits" by simp
  then have "(of_int \<bar>z\<bar> :: rat) < of_int (2 ^ significand_bits)" by (simp only: of_int_less_iff)
  then have "\<bar>of_int z :: rat\<bar> < 2 ^ significand_bits" by simp
  from ulp_below[OF this] obtain j where j: "ulp (of_int z) = 1 / 2 ^ j" by blast
  have "(of_int z :: rat) / (1 / 2 ^ j) = of_int (z * 2 ^ j)" by simp
  then have "round_half_even (of_int z / (1 / 2 ^ j)) = z * 2 ^ j"
    by (simp only: round_half_even_of_int)
  then show ?thesis using j by (simp add: fp_round_def)
qed

lemma js_increment_integer:
  assumes "\<bar>z\<bar> < 2 ^ 53"
  shows "js_increment (of_int z) = of_int z + 1"
proof -
  from assms have "\<bar>z + 1\<bar> \<le> 2 ^ significand_bits" by (simp add: significand_bits_def)
  from fp_round_integer[OF this] show ?thesis by (simp add: js_increment_def)
qed

lemma js_increment_stalls: "js_increment (2 ^ 53) = 2 ^ 53"
  by code_simp

lemma histogram_buckets_single:
  assumes "v < js_increment v"
  shows "histogram_buckets histo v v [] = Some [(v, histo (Some v))]"
proof -
  have "histogram_buckets histo v v [] = histogram_buckets histo (js_increment v) v [(v, histo (Some v))]"
    by (subst histogram_buckets.simps) simp
  also have "\<dots> = Some [(v, histo (Some v))]"
    using assms by (subst histogram_buckets.simps) simp
  finally show ?thesis .
qed

lemma histogram_buckets_stalls:
  assumes "js_increment b = b" and "b \<le> rmax"
  shows "histogram_buckets histo b rmax acc = None"
proof -
  have "\<not> (js_increment b' = b' \<and> b' \<le> rmax')"
    if "histogram_buckets histo' b' rmax' acc' = Some r" for histo' b' rmax' acc' r
  proof (rule histogram_buckets.raw_induct
      [where P = "\<lambda>histo b rmax acc r. \<not> (js_increment b = b \<and> b \<le> rmax)", OF _ that],
      goal_cases)
    case (1 loop histo b rmax acc r)
    show ?case
    proof
      assume st: "js_increment b = b \<and> b \<le> rmax"
      with 1(2) have "loop histo b rmax (acc @ [(b, histo (Some b))]) = Some r" by simp
      from 1(1)[OF this] st show False by simp
    qed
  qed
  with assms show ?thesis by (cases "histogram_buckets histo b rmax acc") auto
qed

lemma rescaled_cong:
  "getValueAtOffset h' img k = getValueAtOffset h img k \<Longrightarrow>
   getRescaledValueAtOffset cap h' img k = getRescaledValueAtOffset cap h img k"
  by (simp add: getRescaledValueAtOffset_def)

lemma histogram_scan_cong:
  assumes "\<forall>i \<in> set is. getValueAtOffset h' img (int i) = getValueAtOffset h img (int i)"
  shows "histogram_scan cap h' img is s = histogram_scan cap h img is s"
  using assms
proof (induction "is" arbitrary: s)
  case Nil
  show ?case by simp
next
  case (Cons i "is")
  from Cons.prems have v: "getValueAtOffset h' img (int i) = getValueAtOffset h img (int i)"
    and rest: "\<forall>i \<in> set is. getValueAtOffset h' img (int i) = getValueAtOffset h img (int i)"
    by simp_all
  show ?case
    by (simp only: histogram_scan.simps v rescaled_cong[OF v] Cons.IH[OF rest])
qed

lemma calculateHistogram_cong:
  assumes "0 < getTotalSize (getSize cap (geometry img)) 0"
    and "\<forall>i < getTotalSize (getSize cap (geometry img)) 0.
           getValueAtOffset h' img (int i) = getValueAtOffset h img (int i)"
  shows "calculateHistogram cap h' img = calculateHistogram cap h img"
proof -
  from assms have v0: "getValueAtOffset h' img 0 = getValueAtOffset h img 0"
    by (metis of_nat_0)
  have sc: "histogram_scan cap h' img [0 ..< getTotalSize (getSize cap (geometry img)) 0] s
          = histogram_scan cap h img [0 ..< getTotalSize (getSize cap (geometry img)) 0] s" for s
    by (rule histogram_scan_cong) (use assms(2) in simp)
  show ?thesis
    unfolding calculateHistogram_def by (simp only: v0 rescaled_cong[OF v0] sc)
qed

lemma calculateHistogram_flat:
  assumes nonempty: "0 < getTotalSize (getSize cap (geometry img)) 0"
    and flat: "\<forall>i < getTotalSize (getSize cap (geometry img)) 0.
                 getRescaledValueAtOffset cap h img (int i) = Inr (Some v)"
  shows "\<exists>s' :: histo_state. hs_histo s' (Some v) = getTotalSize (getSize cap (geometry img)) 0 \<and>
           calculateHistogram cap h img =
             map_option
               (\<lambda>buckets. Inr \<lparr> res_dataRange = (hs_min s', hs_max s'),
                                   res_rescaledDataRange = (Some v, Some v),
                                   res_histogram = buckets \<rparr>)
               (histogram_buckets (hs_histo s') v v [])"
proof -
  let ?n = "getTotalSize (getSize cap (geometry img)) 0"
  from flat nonempty have r0: "getRescaledValueAtOffset cap h img 0 = Inr (Some v)"
    by (metis of_nat_0)
  from rescaled_defined_raw[OF r0] obtain x where x0: "getValueAtOffset h img 0 = Inr x" by blast
  let ?s0 = "\<lparr> hs_min = x, hs_max = x, hs_rmin = Some v, hs_rmax = Some v, hs_histo = (\<lambda>k. 0) \<rparr>"
  have all: "\<forall>i \<in> set [0 ..< ?n]. getRescaledValueAtOffset cap h img (int i) = Inr (Some v)"
    using flat by simp
  from histogram_scan_flat[OF all, of ?s0] obtain s' where
    s': "histogram_scan cap h img [0 ..< ?n] ?s0 = Inr s'"
    and m: "hs_rmin s' = Some v" "hs_rmax s' = Some v"
    and c: "hs_histo s' (Some v) = ?n" by auto
  have "calculateHistogram cap h img =
             map_option
               (\<lambda>buckets. Inr \<lparr> res_dataRange = (hs_min s', hs_max s'),
                                   res_rescaledDataRange = (Some v, Some v),
                                   res_histogram = buckets \<rparr>)
               (histogram_buckets (hs_histo s') v v [])"
    using r0 x0 s' m by (simp add: calculateHistogram_def)
  with c show ?thesis by (intro exI[of _ s']) simp
qed

text \<open>
  Where the increment of the cursor rounds back to the cursor, as it does at \<open>2^53\<close>,
  the bucket loop of a constant image never ends and \<open>getHistogram\<close> does not return.
\<close>

lemma getHistogram_never_returns:
  assumes "histogram img = None"
    and "0 < getTotalSize (getSize cap (geometry img)) 0"
    and "\<forall>i < getTotalSize (getSize cap (geometry img)) 0.
           getRescaledValueAtOffset cap h img (int i) = Inr (Some v)"
    and "js_increment v = v"
  shows "getHistogram cap h img = None"
proof -
  from calculateHistogram_flat[OF assms(2,3)] obtain s' :: histo_state where
    "calculateHistogram cap h img =
             map_option
               (\<lambda>buckets. Inr \<lparr> res_dataRange = (hs_min s', hs_max s'),
                                   res_rescaledDataRange = (Some v, Some v),
                                   res_histogram = buckets \<rparr>)
               (histogram_buckets (hs_histo s') v v [])" by blast
  moreover have "histogram_buckets (hs_histo s') v v [] = None"
    by (rule histogram_buckets_stalls) (simp_all add: assms(4))
  ultimately show ?thesis using assms(1) by (simp add: getHistogram_def)
qed

lemma getHistogram_stalls_at_2_53:
  assumes "histogram img = None"
    and "0 < getTotalSize (getSize cap (geometry img)) 0"
    and "\<forall>i < getTotalSize (getSize cap (geometry img)) 0.
           getRescaledValueAtOffset cap h img (int i) = Inr (Some (2 ^ 53))"
  shows "getHistogram cap h img = None"
  using assms js_increment_stalls by (rule getHistogram_never_returns)

text \<open>
  Claim C8, as the code has it. \<open>calculateHistogram\<close> scans the offsets below the total
  size of the geometry (the number of voxels), not the length of the buffer. For an
  image with at least one voxel and no cached histogram, if the rescaled value at every
  one of these offsets is the same integer \<open>v\<close> with \<open>|v| < 2^53\<close>, then \<open>getHistogram\<close>
  returns, and returns exactly one bucket, \<open>(v, N)\<close> with \<open>N\<close> the number of voxels,
  whatever the number of components and the length of the buffer are. It reads the
  buffer at these offsets only: on every store that holds the same values at the
  offsets below the number of voxels the call returns the same histogram and leaves the
  same caches.
\<close>

theorem histogram_of_constant_image:
  assumes cache: "histogram img = None"
    and nonempty: "0 < getTotalSize (getSize cap (geometry img)) 0"
    and flat: "\<forall>i < getTotalSize (getSize cap (geometry img)) 0.
                 getRescaledValueAtOffset cap h img (int i) = Inr (Some (of_int z))"
    and bound: "\<bar>z\<bar> < 2 ^ 53"
  shows "map_option fst (getHistogram cap h img)
           = Some (Inr [(of_int z, getTotalSize (getSize cap (geometry img)) 0)])
         \<and> (\<forall>h'. (\<forall>i < getTotalSize (getSize cap (geometry img)) 0.
                      getValueAtOffset h' img (int i) = getValueAtOffset h img (int i))
                  \<longrightarrow> getHistogram cap h' img = getHistogram cap h img)"
proof (intro conjI allI impI)
  let ?n = "getTotalSize (getSize cap (geometry img)) 0"
  from calculateHistogram_flat[OF nonempty flat] obtain s' :: histo_state where
    c: "hs_histo s' (Some (of_int z)) = ?n"
    and r: "calculateHistogram cap h img =
             map_option
               (\<lambda>buckets. Inr \<lparr> res_dataRange = (hs_min s', hs_max s'),
                                   res_rescaledDataRange = (Some (of_int z), Some (of_int z)),
                                   res_histogram = buckets \<rparr>)
               (histogram_buckets (hs_histo s') (of_int z) (of_int z) [])" by blast
  have "(of_int z :: rat) < js_increment (of_int z)"
    using js_increment_integer[OF bound] by simp
  from histogram_buckets_single[OF this, of "hs_histo s'"] c
  have "histogram_buckets (hs_histo s') (of_int z) (of_int z) [] = Some [(of_int z, ?n)]"
    by simp
  with r cache show "map_option fst (getHistogram cap h img) = Some (Inr [(of_int z, ?n)])"
    by (simp add: getHistogram_def)
next
  fix h'
  assume "\<forall>i < getTotalSize (getSize cap (geometry img)) 0.
            getValueAtOffset h' img (int i) = getValueAtOffset h img (int i)"
  from calculateHistogram_cong[OF nonempty this]
  show "getHistogram cap h' img = getHistogram cap h img"
    by (simp only: getHistogram_def)
qed

theorem histogram_of_constant_image_witness:
  "histogram flat_image = None
   \<and> getTotalSize (getSize plain_capabilities (geometry flat_image)) 0 = 4
   \<and> getRescaledValueAtOffset plain_capabilities flat_store flat_image 3 = Inr (Some 7)
   \<and> \<bar>7 :: int\<bar> < 2 ^ 53
   \<and> map_option fst (getHistogram plain_capabilities flat_store flat_image) = Some (Inr [(7, 4)])
   \<and> getValueAtOffset [[7, 7, 7, 7, 99]] flat_image 4 = Inr (Some 99)
   \<and> getHistogram plain_capabilities [[7, 7, 7, 7, 99]] flat_image
       = getHistogram plain_capabilities flat_store flat_image"
proof -
  have c: "histogram flat_image = None" by code_simp
  have n: "getTotalSize (getSize plain_capabilities (geometry flat_image)) 0 = 4" by code_simp
  have v: "getRescaledValueAtOffset plain_capabilities flat_store flat_image (int i)
             = Inr (Some (of_int 7))"
    if "i < 4" for i
  proof -
    from that have "i = 0 \<or> i = 1 \<or> i = 2 \<or> i = 3" by auto
    then show ?thesis
      by (elim disjE) (simp_all, code_simp+)
  qed
  have w: "getValueAtOffset [[7, 7, 7, 7, 99]] flat_image (int i)
             = getValueAtOffset flat_store flat_image (int i)"
    if "i < 4" for i
  proof -
    from that have "i = 0 \<or> i = 1 \<or> i = 2 \<or> i = 3" by auto
    then show ?thesis
      by (elim disjE) (simp_all, code_simp+)
  qed
  have x: "getValueAtOffset [[7, 7, 7, 7, 99]] flat_image 4 = Inr (Some 99)" by code_simp
  have f: "\<forall>i < getTotalSize (getSize plain_capabilities (geometry flat_image)) 0.
            getRescaledValueAtOffset plain_capabilities flat_store flat_image (int i)
              = Inr (Some (of_int 7))"
    using v n by simp
  have g: "\<forall>i < getTotalSize (getSize plain_capabilities (geometry flat_image)) 0.
            getValueAtOffset [[7, 7, 7, 7, 99]] flat_image (int i)
              = getValueAtOffset flat_store flat_image (int i)"
    using w n by simp
  have p: "0 < getTotalSize (getSize plain_capabilities (geometry flat_image)) 0" using n by simp
  have b: "\<bar>7 :: int\<bar> < 2 ^ 53" by simp
  note t = histogram_of_constant_image[OF c p f b]
  from t have A: "map_option fst (getHistogram plain_capabilities flat_store flat_image)
      = Some (Inr [(of_int 7, getTotalSize (getSize plain_capabilities (geometry flat_image)) 0)])"
    by (rule conjunct1)
  from t have "\<forall>h'. (\<forall>i < getTotalSize (getSize plain_capabilities (geometry flat_image)) 0.
                      getValueAtOffset h' flat_image (int i)
                        = getValueAtOffset flat_store flat_image (int i))
                  \<longrightarrow> getHistogram plain_capabilities h' flat_image
                      = getHistogram plain_capabilities flat_store flat_image"
    by (rule conjunct2)
  with g have B: "getHistogram plain_capabilities [[7, 7, 7, 7, 99]] flat_image
       = getHistogram plain_capabilities flat_store flat_image" by blast
  from A n have A': "map_option fst (getHistogram plain_capabilities flat_store flat_image)
      = Some (Inr [(7, 4)])" by simp
  have v3: "getRescaledValueAtOffset plain_capabilities flat_store flat_image 3 = Inr (Some 7)"
    using v[of 3] by simp
  from c n v3 b A' x B show ?thesis by (intro conjI)
qed

text \<open>
  The claim C8 as stated fails on a colour image: the one-voxel image with the three
  samples \<open>[5, 5, 5]\<close> gets the bucket \<open>(5, 1)\<close>, not \<open>(5, 3)\<close>.
\<close>

theorem histogram_counts_voxels_not_samples:
  "numberOfComponents rgb_image = Fin 3
   \<and> buf_of rgb_store 0 = [5, 5, 5]
   \<and> map_option fst (getHistogram plain_capabilities rgb_store rgb_image) = Some (Inr [(5, 1)])"
  by code_simp

section \<open>Properties of appendSlice\<close>

lemma meta_mismatch_descriptive:
  "meta_mismatch entries own other = Some e \<Longrightarrow> descriptive e"
  by (induction entries own other rule: meta_mismatch.induct) (auto split: if_splits)

lemma meta_mismatch_None:
  "meta_mismatch entries own other = None \<longleftrightarrow>
     filter (\<lambda>key. key \<noteq> ''windowPresets'' \<and> key \<noteq> ''numberOfFiles'' \<and> own key \<noteq> other key)
       (map fst entries) = []"
  by (induction entries own other rule: meta_mismatch.induct) auto

lemma checks_descriptive:
  "appendSlice_checks cap img (Some r) = Some e \<Longrightarrow> descriptive e"
  by (auto simp add: appendSlice_checks_def Let_def split: if_splits
      dest: meta_mismatch_descriptive)

lemma checks_None:
  "appendSlice_checks cap img (Some r) = None \<Longrightarrow>
   fails_validation cap img r \<Longrightarrow> numberOfFiles (imageMeta img) = None"
  by (auto simp add: appendSlice_checks_def Let_def fails_validation_def differing_meta_keys_def
      meta_mismatch_None split: if_splits)

text \<open>
  Claim C6. If the slice fails a validation check of \<open>appendSlice\<close> (wrong slice count,
  differing columns, rows, orientation or photometric interpretation, a meta key other
  than \<open>windowPresets\<close> and \<open>numberOfFiles\<close> whose value differs or is missing in the
  slice, or an unknown \<open>numberOfFiles\<close>), the call raises one of the descriptive errors
  and leaves the store and the image exactly as they were: buffer, geometry, RSI state
  and UID list included.
\<close>

theorem appendSlice_rejects_without_change:
  assumes "fails_validation cap img r"
  shows "\<exists>e. descriptive e \<and> appendSlice cap (Some r) timeId (h, img) = (Some e, h, img)"
proof (cases "appendSlice_checks cap img (Some r)")
  case (Some e)
  from checks_descriptive[OF Some] Some show ?thesis
    by (simp add: appendSlice_def Let_def)
next
  case None
  from checks_None[OF None assms] have "numberOfFiles (imageMeta img) = None" .
  then have "appendSlice_grow cap (h, img) = (Some MissingNumberOfFiles, h, img)"
    by (simp add: appendSlice_grow_def Let_def)
  with None show ?thesis by (simp add: appendSlice_def Let_def)
qed

theorem appendSlice_rejects_without_change_witness:
  "fails_validation plain_capabilities grey_loading grey_slice
   \<and> descriptive (DifferentMeta ''Modality'')
   \<and> appendSlice plain_capabilities (Some grey_slice) None (grey_store, grey_loading)
       = (Some (DifferentMeta ''Modality''), grey_store, grey_loading)
   \<and> fails_validation plain_capabilities grey_image grey_slice
   \<and> appendSlice plain_capabilities (Some grey_slice) None (grey_store, grey_image)
       = (Some MissingNumberOfFiles, grey_store, grey_image)"
proof -
  have f1: "fails_validation plain_capabilities grey_loading grey_slice" by code_simp
  have f2: "fails_validation plain_capabilities grey_image grey_slice" by code_simp
  have e1: "fst (appendSlice plain_capabilities (Some grey_slice) None (grey_store, grey_loading))
     = Some (DifferentMeta ''Modality'')" by code_simp
  have e2: "fst (appendSlice plain_capabilities (Some grey_slice) None (grey_store, grey_image))
     = Some MissingNumberOfFiles" by code_simp
  from appendSlice_rejects_without_change[OF f1, of None grey_store] e1
  have a1: "appendSlice plain_capabilities (Some grey_slice) None (grey_store, grey_loading)
       = (Some (DifferentMeta ''Modality''), grey_store, grey_loading)" by auto
  from appendSlice_rejects_without_change[OF f2, of None grey_store] e2
  have a2: "appendSlice plain_capabilities (Some grey_slice) None (grey_store, grey_image)
       = (Some MissingNumberOfFiles, grey_store, grey_image)" by auto
  from f1 f2 a1 a2 show ?thesis by simp
qed

section \<open>Properties of the planners\<close>

text \<open>
  Claim C1, as the code has it. For an image with 3 components, \<open>getSliceIterator\<close>
  with an explicit view orientation does not fail: it returns the \<open>range3d\<close> iterator
  over the slice block scaled by 3, with the planar flag of the image; the orientation
  only selects the position coordinate that is kept for the start offset. For every
  component count other than 1 and 3 (a fraction or a non-finite quotient included) the
  call raises the error "Unsupported number of components", with or without an
  orientation.
\<close>

theorem getSliceIterator_component_count:
  "(numberOfComponents img = Fin 3 \<longrightarrow>
      getSliceIterator cap img position isRescaled (Some vo) =
        (let posStart = map (\<lambda>(element, index). if index = vo 2 then element else 0)
                          (zip position [0 ..< length position]);
             start = indexToOffset (getSize cap (geometry img)) posStart 0;
             sliceSize = int (getDimSize (getSize cap (geometry img)) 2)
         in Inr (case isRescaled of None \<Rightarrow> False | Some b \<Rightarrow> b,
                 Range3dIt (range3d (start * 3) (start * 3 + sliceSize * 3) (Some 1)
                              (Some (planarConfiguration img = 1))))))
   \<and> (numberOfComponents img \<noteq> Fin 1 \<and> numberOfComponents img \<noteq> Fin 3 \<longrightarrow>
        getSliceIterator cap img position isRescaled viewOrientation
          = Inl UnsupportedNumberOfComponents)"
  by (simp add: getSliceIterator_def Let_def)

theorem getSliceIterator_component_count_witness:
  "numberOfComponents rgb_image = Fin 3
   \<and> getSliceIterator plain_capabilities rgb_image [0, 0, 0] None (Some axial)
       = Inr (False, Range3dIt (range3d 0 3 (Some 1) (Some False)))
   \<and> numberOfComponents two_component_image = Fin 2
   \<and> getSliceIterator plain_capabilities two_component_image [0, 0, 0] None None
       = Inl UnsupportedNumberOfComponents"
proof -
  have n3: "numberOfComponents rgb_image = Fin 3" by code_simp
  have n2: "numberOfComponents two_component_image = Fin 2" by code_simp
  have s: "indexToOffset (getSize plain_capabilities (geometry rgb_image))
             (map (\<lambda>(element, index). if index = axial 2 then element else 0)
                (zip [0, 0, 0] [0 ..< length [0, 0, 0 :: int]])) 0 = 0" by code_simp
  have d: "int (getDimSize (getSize plain_capabilities (geometry rgb_image)) 2) = 1" by code_simp
  have p: "planarConfiguration rgb_image = 0" by code_simp
  from getSliceIterator_component_count
    [where img = rgb_image and cap = plain_capabilities and position = "[0, 0, 0]"
       and isRescaled = None and vo = axial]
  have "getSliceIterator plain_capabilities rgb_image [0, 0, 0] None (Some axial)
       = Inr (False, Range3dIt (range3d 0 3 (Some 1) (Some False)))"
    using n3 s d p by (simp add: Let_def)
  moreover from getSliceIterator_component_count
    [where img = two_component_image and cap = plain_capabilities and position = "[0, 0, 0]"
       and isRescaled = None and viewOrientation = None]
  have "getSliceIterator plain_capabilities two_component_image [0, 0, 0] None None
       = Inl UnsupportedNumberOfComponents"
    using n2 by simp
  ultimately show ?thesis using n3 n2 by simp
qed

text \<open>
  The claim C1 as stated fails: the one-voxel colour image with the identity view
  orientation gets an iterator, not an error.
\<close>

theorem getSliceIterator_accepts_oriented_colour:
  "numberOfComponents rgb_image = Fin 3
   \<and> getSliceIterator plain_capabilities rgb_image [0, 0, 0] None (Some axial)
       = Inr (False,
              Range3dIt \<lparr> r3_nextIndex = 0, r3_nextIndex1 = 1, r3_nextIndex2 = 2,
                          r3_end = 3, r3_increment = 3 \<rparr>)"
  by code_simp

text \<open>
  Claim C7, evaluated on the code. On the grey image of two columns and two rows, with
  \<open>min\<close> and \<open>max\<close> omitted, the planner returns the region iterator from offset 0 to
  the exclusive end 4 with a row width of 1 and a row skip of 1 (the default maximum
  column is \<open>ncols - 1\<close> and the width is the difference of the columns). Draining it
  visits the offsets 0 and 2 only: the last column of each row, offsets 1 and 3, is
  not visited.
\<close>

theorem default_region_skips_last_column:
  "getSize plain_capabilities (geometry grey_image) = plain_dims 2 2 1
   \<and> buf_of grey_store 0 = [10, 11, 12, 13]
   \<and> getRegionSliceIterator plain_capabilities grey_image [0, 0, 0] None None None
       = Inr (False, rangeRegion 0 4 1 1 1)
   \<and> getIteratorValues (region_next plain_capabilities grey_store grey_image)
        (False, rangeRegion 0 4 1 1 1)
       = Some (Inr [Inr (Some 10), Inr (Some 12)])"
  by code_simp

section \<open>Properties of clone\<close>

lemma setRSI_on_fresh_returns:
  "fst (setRescaleSlopeAndIntercept cap (RsiObject r) off (Image cap h g b u)) = None
   \<and> buffer (snd (setRescaleSlopeAndIntercept cap (RsiObject r) off (Image cap h g b u))) = Some b"
  by (simp add: setRescaleSlopeAndIntercept_def Image_def typeof_index_undefined_def Let_def)

lemma clone_constant:
  assumes "buffer img = Some a" and "isConstantRSI img" and "rsi img = RsiObject r"
  shows "\<exists>copy. clone cap h img = (Inr copy, h @ [buf_of h a]) \<and> buffer copy = Some (length h)"
proof -
  let ?h' = "h @ [buf_of h a]"
  let ?copy0 = "Image cap ?h' (geometry img) (length h) (imageUids img)"
  obtain e copy1 where s: "setRescaleSlopeAndIntercept cap (RsiObject r) None ?copy0 = (e, copy1)"
    by (cases "setRescaleSlopeAndIntercept cap (RsiObject r) None ?copy0") auto
  with setRSI_on_fresh_returns[of cap r None ?h' "geometry img" "length h" "imageUids img"]
  have e: "e = None" and b: "buffer copy1 = Some (length h)" by simp_all
  show ?thesis
    using assms s e b
    by (simp add: clone_def heap_alloc_def Let_def constant_getRSI)
qed

lemma buf_of_append_old: "a < length h \<Longrightarrow> buf_of (h @ [xs]) a = buf_of h a"
  by (simp add: buf_of_def nth_append)

lemma buf_of_append_new: "buf_of (h @ [xs]) (length h) = xs"
  by (simp add: buf_of_def)

lemma heap_put_new: "heap_put (h @ [xs]) (length h) ys = h @ [ys]"
  by (simp add: heap_put_def)

lemma buffer_write_new:
  "buffer_write (h @ [xs]) (length h) i v = h @ [xs] \<or>
   (\<exists>ys. buffer_write (h @ [xs]) (length h) i v = h @ [ys])"
  by (simp add: buffer_write_def heap_put_new)

lemma read_other_cell:
  "buffer img = Some a \<Longrightarrow> a < length h \<Longrightarrow>
   getValueAtOffset (h @ [ys]) img k = getValueAtOffset h img k"
  by (simp add: getValueAtOffset_def buf_of_append_old)

lemma dataRange_loop_cong:
  assumes "\<And>k. getValueAtOffset h1 img k = getValueAtOffset h2 img k"
  shows "dataRange_loop h1 img is s = dataRange_loop h2 img is s"
proof (induction "is" arbitrary: s)
  case Nil
  show ?case by (cases s) simp
next
  case (Cons i "is")
  show ?case by (cases s) (simp add: assms Cons.IH split: sum.splits)
qed

lemma getDataRange_cong:
  assumes "\<And>k. getValueAtOffset h1 img k = getValueAtOffset h2 img k"
  shows "getDataRange cap h1 img = getDataRange cap h2 img"
proof -
  have eq: "calculateDataRange cap h1 img = calculateDataRange cap h2 img"
    unfolding calculateDataRange_def Let_def
    by (simp only: assms dataRange_loop_cong[OF assms])
  show ?thesis by (simp only: getDataRange_def eq)
qed

lemma setRSI_keeps_buffer:
  "buffer (snd (setRescaleSlopeAndIntercept cap r off img)) = buffer img"
  by (simp add: setRescaleSlopeAndIntercept_def Let_def
      split: option.splits rsi_value.splits)

lemma clone_rsis_keeps_buffer: "buffer (snd (clone_rsis cap img is copy)) = buffer copy"
proof (induction "is" arbitrary: copy)
  case Nil
  show ?case by simp
next
  case (Cons i "is")
  show ?case
  proof (cases "getRescaleSlopeAndInterceptAtOffset img i")
    case (Inl e)
    then show ?thesis by simp
  next
    case (Inr r)
    obtain e copy' where s: "setRescaleSlopeAndIntercept cap r (Some (Fin (of_nat i))) copy = (e, copy')"
      by (cases "setRescaleSlopeAndIntercept cap r (Some (Fin (of_nat i))) copy") auto
    from setRSI_keeps_buffer[of cap r "Some (Fin (of_nat i))" copy] s
    have b: "buffer copy' = buffer copy" by simp
    show ?thesis
    proof (cases e)
      case None
      with Inr s b Cons.IH[of copy'] show ?thesis by simp
    next
      case (Some err)
      with Inr s b show ?thesis by simp
    qed
  qed
qed

lemma clone_store: "buffer img = Some a \<Longrightarrow> snd (clone cap h img) = h @ [buf_of h a]"
  by (simp add: clone_def heap_alloc_def Let_def split: prod.splits option.splits sum.splits)

lemma clone_copy_buffer:
  assumes "buffer img = Some a" and "fst (clone cap h img) = Inr copy"
  shows "buffer copy = Some (length h)"
proof -
  let ?h' = "h @ [buf_of h a]"
  let ?copy0 = "Image cap ?h' (geometry img) (length h) (imageUids img)"
  have b0: "buffer ?copy0 = Some (length h)" by (simp add: Image_def)
  show ?thesis
  proof (cases "isConstantRSI img")
    case True
    show ?thesis
    proof (cases "getRescaleSlopeAndIntercept cap img None")
      case (Inl e)
      with assms True show ?thesis by (simp add: clone_def heap_alloc_def Let_def)
    next
      case (Inr r)
      obtain e copy1 where s: "setRescaleSlopeAndIntercept cap r None ?copy0 = (e, copy1)"
        by (cases "setRescaleSlopeAndIntercept cap r None ?copy0") auto
      from setRSI_keeps_buffer[of cap r None ?copy0] s b0
      have b1: "buffer copy1 = Some (length h)" by simp
      from assms True Inr s b1 show ?thesis
        by (cases e) (auto simp add: clone_def heap_alloc_def Let_def)
    qed
  next
    case False
    obtain e copy1 where s:
      "clone_rsis cap img [0 ..< getSecondaryOffsetMax cap img] ?copy0 = (e, copy1)"
      by (cases "clone_rsis cap img [0 ..< getSecondaryOffsetMax cap img] ?copy0") auto
    from clone_rsis_keeps_buffer[of cap img "[0 ..< getSecondaryOffsetMax cap img]" ?copy0] s b0
    have b1: "buffer copy1 = Some (length h)" by simp
    from assms False s b1 show ?thesis
      by (cases e) (auto simp add: clone_def heap_alloc_def Let_def)
  qed
qed

lemma calculateDataRange_cong:
  assumes "\<And>k. getValueAtOffset h1 img k = getValueAtOffset h2 img k"
  shows "calculateDataRange cap h1 img = calculateDataRange cap h2 img"
  unfolding calculateDataRange_def Let_def
  by (simp only: assms dataRange_loop_cong[OF assms])

text \<open>
  Claim C9. For every image whose buffer is an array of the store, with or without a
  cached data range, \<open>clone()\<close> leaves the store with one more array, a copy of the
  buffer's content at a new address, and the buffer of the copy it returns is that new
  array. It returns a copy whenever the image is in constant RSI mode with an RSI
  object, as every image built through the public interface is. Writing any value at
  any index of the copy's buffer changes what the copy reads there and, like replacing
  the whole content of the copy's buffer, leaves every \<open>getValueAtOffset\<close> of the
  source as it was. \<open>getDataRange\<close> of the source returns the
  same range and the same cache after the write as before it; when the source holds a
  cached range this is the cached range, and a fresh \<open>calculateDataRange\<close> still
  agrees with what it gave before the write.
\<close>

theorem clone_buffer_is_independent:
  assumes "buffer img = Some a" and "a < length h"
  shows "snd (clone cap h img) = h @ [buf_of h a]
         \<and> length h \<noteq> a
         \<and> ((api_state cap (h, img) \<or> (isConstantRSI img \<and> is_rsi_object (rsi img)))
              \<longrightarrow> (\<exists>copy. fst (clone cap h img) = Inr copy))
         \<and> (\<forall>copy. fst (clone cap h img) = Inr copy \<longrightarrow>
               buffer copy = Some (length h)
               \<and> (\<forall>k. getValueAtOffset (h @ [buf_of h a]) copy k = getValueAtOffset h img k)
               \<and> (\<forall>i v. 0 \<le> i \<and> nat i < length (buf_of h a) \<longrightarrow>
                      getValueAtOffset (buffer_write (h @ [buf_of h a]) (length h) i v) copy i
                        = Inr (Some v)))
         \<and> (\<forall>i v k. getValueAtOffset (buffer_write (h @ [buf_of h a]) (length h) i v) img k
                        = getValueAtOffset h img k)
         \<and> (\<forall>xs k. getValueAtOffset (heap_put (h @ [buf_of h a]) (length h) xs) img k
                        = getValueAtOffset h img k)
         \<and> (\<forall>i v. getDataRange cap (buffer_write (h @ [buf_of h a]) (length h) i v) img
                        = getDataRange cap h img)
         \<and> (\<forall>i v r. dataRange img = Some r \<longrightarrow>
                getDataRange cap (buffer_write (h @ [buf_of h a]) (length h) i v) img
                  = (Inr r, img))
         \<and> (\<forall>i v. calculateDataRange cap (buffer_write (h @ [buf_of h a]) (length h) i v) img
                        = calculateDataRange cap h img)"
proof -
  have st: "snd (clone cap h img) = h @ [buf_of h a]"
    using assms(1) by (rule clone_store)
  have ret: "\<exists>copy. fst (clone cap h img) = Inr copy"
    if "api_state cap (h, img) \<or> (isConstantRSI img \<and> is_rsi_object (rsi img))"
  proof -
    from that api_state_invariant[of cap "(h, img)"]
    have c: "isConstantRSI img" and o: "is_rsi_object (rsi img)"
      by (auto simp add: identity_flag_sound_def)
    from o obtain r where r: "rsi img = RsiObject r" by (cases "rsi img") simp_all
    from clone_constant[OF assms(1) c r, of cap h] show ?thesis by auto
  qed
  have cp: "buffer copy = Some (length h)
            \<and> (\<forall>k. getValueAtOffset (h @ [buf_of h a]) copy k = getValueAtOffset h img k)
            \<and> (\<forall>i v. 0 \<le> i \<and> nat i < length (buf_of h a) \<longrightarrow>
                   getValueAtOffset (buffer_write (h @ [buf_of h a]) (length h) i v) copy i
                     = Inr (Some v))"
    if "fst (clone cap h img) = Inr copy" for copy
  proof -
    from clone_copy_buffer[OF assms(1) that] have b: "buffer copy = Some (length h)" .
    have "getValueAtOffset (buffer_write (h @ [buf_of h a]) (length h) i v) copy i = Inr (Some v)"
      if "0 \<le> i \<and> nat i < length (buf_of h a)" for i v
      using that b
      by (simp add: getValueAtOffset_def buffer_write_def buf_of_append_new heap_put_new)
    with b assms(1) show ?thesis by (simp add: getValueAtOffset_def buf_of_append_new)
  qed
  have w: "getValueAtOffset (buffer_write (h @ [buf_of h a]) (length h) i v) img k
             = getValueAtOffset h img k" for i v k
    using buffer_write_new[of h "buf_of h a" i v] read_other_cell[OF assms] by auto
  have p: "getValueAtOffset (heap_put (h @ [buf_of h a]) (length h) xs) img k
             = getValueAtOffset h img k" for xs k
    using read_other_cell[OF assms] by (simp add: heap_put_new)
  have d: "getDataRange cap (buffer_write (h @ [buf_of h a]) (length h) i v) img
             = getDataRange cap h img" for i v
    by (rule getDataRange_cong) (rule w)
  have dc: "getDataRange cap (buffer_write (h @ [buf_of h a]) (length h) i v) img = (Inr r, img)"
    if "dataRange img = Some r" for i v r
    using that by (simp add: getDataRange_def)
  have cd: "calculateDataRange cap (buffer_write (h @ [buf_of h a]) (length h) i v) img
             = calculateDataRange cap h img" for i v
    by (rule calculateDataRange_cong) (rule w)
  from st ret cp w p d dc cd assms(2) show ?thesis by blast
qed

theorem clone_buffer_is_independent_witness:
  "dataRange grey_cached = Some (Some 10, Some 13)
   \<and> buffer grey_cached = Some 0 \<and> (0::nat) < length grey_store
   \<and> isConstantRSI grey_cached \<and> is_rsi_object (rsi grey_cached)
   \<and> fst (clone plain_capabilities grey_store grey_cached) = Inr (grey_image\<lparr> buffer := Some 2 \<rparr>)
   \<and> snd (clone plain_capabilities grey_store grey_cached) = grey_store @ [[10, 11, 12, 13]]
   \<and> getValueAtOffset (buffer_write (grey_store @ [[10, 11, 12, 13]]) 2 1 99)
        (grey_image\<lparr> buffer := Some 2 \<rparr>) 1 = Inr (Some 99)
   \<and> calculateDataRange plain_capabilities (buffer_write (grey_store @ [[10, 11, 12, 13]]) 2 1 99)
        (grey_image\<lparr> buffer := Some 2 \<rparr>) = Inr (Some 10, Some 99)
   \<and> getValueAtOffset (buffer_write (grey_store @ [[10, 11, 12, 13]]) 2 1 99) grey_cached 1
        = Inr (Some 11)
   \<and> getDataRange plain_capabilities (buffer_write (grey_store @ [[10, 11, 12, 13]]) 2 1 99) grey_cached
        = (Inr (Some 10, Some 13), grey_cached)
   \<and> calculateDataRange plain_capabilities (buffer_write (grey_store @ [[10, 11, 12, 13]]) 2 1 99)
        grey_cached = Inr (Some 10, Some 13)"
proof -
  have dr: "dataRange grey_cached = Some (Some 10, Some 13)" by code_simp
  have b: "buffer grey_cached = Some 0" by code_simp
  have l: "(0::nat) < length grey_store" by code_simp
  have c: "isConstantRSI grey_cached" by code_simp
  have o: "is_rsi_object (rsi grey_cached)" by code_simp
  have bo: "buf_of grey_store 0 = [10, 11, 12, 13]" by code_simp
  have lh: "length grey_store = 2" by code_simp
  have c1: "fst (clone plain_capabilities grey_store grey_cached) = Inr (grey_image\<lparr> buffer := Some 2 \<rparr>)"
    by code_simp
  have r1: "getValueAtOffset (buffer_write (grey_store @ [[10, 11, 12, 13]]) 2 1 99)
        (grey_image\<lparr> buffer := Some 2 \<rparr>) 1 = Inr (Some 99)" by code_simp
  have r2: "calculateDataRange plain_capabilities (buffer_write (grey_store @ [[10, 11, 12, 13]]) 2 1 99)
        (grey_image\<lparr> buffer := Some 2 \<rparr>) = Inr (Some 10, Some 99)" by code_simp
  have r3: "getValueAtOffset grey_store grey_cached 1 = Inr (Some 11)" by code_simp
  have r4: "calculateDataRange plain_capabilities grey_store grey_cached = Inr (Some 10, Some 13)"
    by code_simp
  note t = clone_buffer_is_independent[OF b l, of plain_capabilities, unfolded bo lh]
  from t have s: "snd (clone plain_capabilities grey_store grey_cached) = grey_store @ [[10, 11, 12, 13]]"
    by blast
  from t have "\<forall>i v k. getValueAtOffset (buffer_write (grey_store @ [[10, 11, 12, 13]]) 2 i v) grey_cached k
                        = getValueAtOffset grey_store grey_cached k"
    by blast
  with r3 have w: "getValueAtOffset (buffer_write (grey_store @ [[10, 11, 12, 13]]) 2 1 99) grey_cached 1
        = Inr (Some 11)" by simp
  from t have "\<forall>i v r. dataRange grey_cached = Some r \<longrightarrow>
                getDataRange plain_capabilities (buffer_write (grey_store @ [[10, 11, 12, 13]]) 2 i v) grey_cached
                  = (Inr r, grey_cached)"
    by blast
  with dr have d: "getDataRange plain_capabilities (buffer_write (grey_store @ [[10, 11, 12, 13]]) 2 1 99) grey_cached
        = (Inr (Some 10, Some 13), grey_cached)" by blast
  from t have "\<forall>i v. calculateDataRange plain_capabilities (buffer_write (grey_store @ [[10, 11, 12, 13]]) 2 i v) grey_cached
                        = calculateDataRange plain_capabilities grey_store grey_cached"
    by blast
  with r4 have cd: "calculateDataRange plain_capabilities (buffer_write (grey_store @ [[10, 11, 12, 13]]) 2 1 99)
        grey_cached = Inr (Some 10, Some 13)" by simp
  from dr b l c o c1 s r1 r2 w d cd show ?thesis by (intro conjI)
qed

end
